theory Spec2Isabelle
  imports Complex_Main "HOL-Library.Word" "HOL-Library.Log_Nat"
begin

section \<open>The playback session of libpenntotalrecall.c\<close>

text \<open>
  The C file keeps one process-wide session in global variables and drives the FMOD
  engine through its C interface. The globals become a record that every operation takes
  and returns; the engine is an opaque collaborator, so each engine call is modelled by
  the reply it gives (its result code and the value its out-parameter holds after the
  call) and is logged, with its arguments, in a list of calls.
\<close>

subsection \<open>Data\<close>

text \<open>The enum \<open>PlaybackState\<close>; the C code compares its values as integers.\<close>

datatype PlaybackState =
    STATE_UNINITIALIZED
  | STATE_SYSTEM_CREATED
  | STATE_SYSTEM_INITIALIZED
  | STATE_SOUND_LOADED
  | STATE_PLAYING
  | STATE_ERROR

fun state_num :: "PlaybackState \<Rightarrow> nat" where
  "state_num STATE_UNINITIALIZED = 0"
| "state_num STATE_SYSTEM_CREATED = 1"
| "state_num STATE_SYSTEM_INITIALIZED = 2"
| "state_num STATE_SOUND_LOADED = 3"
| "state_num STATE_PLAYING = 4"
| "state_num STATE_ERROR = 5"

text \<open>
  The result codes of the engine that the C file tells apart: success, the two codes it
  tolerates on a channel, and every other error (numbered).
\<close>

datatype FMOD_RESULT =
    FMOD_OK
  | FMOD_ERR_INVALID_HANDLE
  | FMOD_ERR_CHANNEL_STOLEN
  | FMOD_ERR_OTHER nat

text \<open>Pointers to engine objects: the null pointer, or the address of an object.\<close>

datatype pointer = NULL | Address nat

text \<open>
  The globals \<open>fmsystem\<close>, \<open>sound\<close>, \<open>channel\<close>, \<open>lastStartFrame\<close> (a C \<open>int\<close>:
  32 bits, read with \<open>sint\<close>) and \<open>currentState\<close>.
\<close>

record session =
  fmsystem :: pointer
  sound :: pointer
  channel :: pointer
  lastStartFrame :: "32 word"
  currentState :: PlaybackState

definition initial_session :: session where
  "initial_session =
     \<lparr>fmsystem = NULL, sound = NULL, channel = NULL, lastStartFrame = 0,
      currentState = STATE_UNINITIALIZED\<rparr>"

text \<open>
  The engine calls the file makes, with the arguments that matter here:
  \<open>System_CreateSound\<close> carries the file name and \<open>soundInfo.initialseekposition\<close>,
  \<open>Channel_SetDelay\<close> the clock (high word, low word) and the flag that tells the start
  delay (\<open>True\<close>) from the stop delay (\<open>False\<close>).
\<close>

datatype fmod_call =
    System_Create
  | System_Init pointer
  | System_CreateSound pointer string "32 word"
  | Sound_GetDefaults pointer
  | System_PlaySound pointer pointer
  | System_GetDSPBufferSize pointer
  | System_GetSoftwareFormat pointer
  | System_GetDSPClock pointer
  | Channel_SetDelay pointer "32 word" "32 word" bool
  | Channel_SetVolume pointer
  | Channel_SetPaused pointer
  | Channel_GetPosition pointer
  | Channel_IsPlaying pointer
  | System_Update pointer
  | Sound_Release pointer
  | System_Close pointer
  | System_Release pointer

text \<open>
  The replies of the engine during one \<open>startPlayback\<close>: for each call its result code
  and, where the call has an out-parameter, the value that variable holds after the call.
  The result of \<open>FMOD_System_GetDSPClock\<close> is not looked at by the C code, so only the
  two clock words are kept. The sample rate of the sound is a C \<open>float\<close>, kept as the
  rational number it denotes.
\<close>

record start_replies =
  r_System_Create :: "FMOD_RESULT \<times> pointer"
  r_System_Init :: FMOD_RESULT
  r_System_CreateSound :: "FMOD_RESULT \<times> pointer"
  r_Sound_GetDefaults :: "FMOD_RESULT \<times> rat"
  r_System_PlaySound :: "FMOD_RESULT \<times> pointer"
  r_System_GetDSPBufferSize :: "FMOD_RESULT \<times> 32 word"
  r_System_GetSoftwareFormat :: "FMOD_RESULT \<times> 32 word"
  r_System_GetDSPClock :: "32 word \<times> 32 word"
  r_Channel_SetDelay_start :: FMOD_RESULT
  r_Channel_SetDelay_end :: FMOD_RESULT
  r_Channel_SetVolume :: FMOD_RESULT
  r_Channel_SetPaused :: FMOD_RESULT

text \<open>
  What the engine promises: a call that creates an object and returns \<open>FMOD_OK\<close> has
  stored a non-null pointer.
\<close>

definition engine_contract :: "start_replies \<Rightarrow> bool" where
  "engine_contract e \<longleftrightarrow>
     (fst (r_System_Create e) = FMOD_OK \<longrightarrow> snd (r_System_Create e) \<noteq> NULL) \<and>
     (fst (r_System_CreateSound e) = FMOD_OK \<longrightarrow> snd (r_System_CreateSound e) \<noteq> NULL) \<and>
     (fst (r_System_PlaySound e) = FMOD_OK \<longrightarrow> snd (r_System_PlaySound e) \<noteq> NULL)"

subsection \<open>Double-precision arithmetic\<close>

text \<open>
  Line 169 computes in C \<open>double\<close>. A finite double is modelled by the rational number
  it denotes, and each operation rounds the exact result to the nearest double, ties to
  even (IEEE 754 binary64: 53 significant bits, least exponent \<open>-1074\<close>), with no
  excess precision. \<open>None\<close> stands for a result that is not finite.
\<close>

definition pow2 :: "int \<Rightarrow> rat" where
  "pow2 e = (if 0 \<le> e then 2 ^ nat e else 1 / 2 ^ nat (- e))"

text \<open>For \<open>x > 0\<close>, the integer \<open>k\<close> with \<open>2^k \<le> x < 2^(k+1)\<close>.\<close>

definition ilog2 :: "rat \<Rightarrow> int" where
  "ilog2 x = (if 1 \<le> x then bitlen \<lfloor>x\<rfloor> - 1 else - bitlen (\<lceil>1 / x\<rceil> - 1))"

definition round_half_even :: "rat \<Rightarrow> int" where
  "round_half_even y =
     (let f = \<lfloor>y\<rfloor>; d = y - of_int f
      in if d < 1 / 2 then f
         else if 1 / 2 < d then f + 1
         else if even f then f else f + 1)"

definition round_double :: "rat \<Rightarrow> rat option" where
  "round_double x =
     (if x = 0 then Some 0
      else let e = max (ilog2 \<bar>x\<bar> - 52) (- 1074);
               v = of_int (round_half_even (\<bar>x\<bar> / pow2 e)) * pow2 e
           in if v < pow2 1024 then Some (sgn x * v) else None)"

text \<open>Division of doubles; a zero divisor gives an infinity or a NaN.\<close>

definition double_div :: "rat \<Rightarrow> rat \<Rightarrow> rat option" where
  "double_div a b = (if b = 0 then None else round_double (a / b))"

definition double_mul :: "rat \<Rightarrow> rat \<Rightarrow> rat option" where
  "double_mul a b = round_double (a * b)"

text \<open>
  The cast \<open>(int)\<close> of a double drops the fractional part; C leaves it undefined when
  the integral part is not an \<open>int\<close> (\<open>None\<close>). The \<open>int\<close> is then added to an
  \<open>unsigned int\<close>, so it is returned as the 32-bit word it converts to.
\<close>

definition double_to_int :: "rat \<Rightarrow> 32 word option" where
  "double_to_int p =
     (if - (2 ^ 31) - 1 < p \<and> p < 2 ^ 31
      then Some (word_of_int (if 0 \<le> p then \<lfloor>p\<rfloor> else \<lceil>p\<rceil>))
      else None)"

text \<open>
  Line 169:
  \<^verbatim>\<open>endDelayFrames = startDelayFrames + (int) (outputRate * ((endFrame - startFrame) / (double)(inputRate)));\<close>
  The \<open>long long\<close> difference is converted to double (rounded), divided by the rate
  (a float converts to double exactly), multiplied by the \<open>int\<close> output rate (which
  converts exactly), cast to \<open>int\<close> and added in \<open>unsigned int\<close>.
\<close>

definition endDelayFrames_of ::
  "32 word \<Rightarrow> 32 word \<Rightarrow> rat \<Rightarrow> 64 word \<Rightarrow> 64 word \<Rightarrow> 32 word option" where
  "endDelayFrames_of startDelayFrames outputRate inputRate startFrame endFrame =
     Option.bind (round_double (of_int (sint (endFrame - startFrame)))) (\<lambda>w.
     Option.bind (double_div w inputRate) (\<lambda>q.
     Option.bind (double_mul (of_int (sint outputRate)) q) (\<lambda>p.
     Option.bind (double_to_int p) (\<lambda>c.
     Some (startDelayFrames + c)))))"

text \<open>
  Modelled from the spec: the macro \<open>FMOD_64BIT_ADD\<close> of \<open>inc/fmod.h\<close>, which is not
  among the sources. The spec reads the clock as one 64-bit tick counter and the delays as
  sums (\<open>startClock = nowClock + startDelayFrames\<close>); the macro adds the pair
  \<open>(hi2, lo2)\<close> to the pair \<open>(hi1, lo1)\<close> as 64-bit numbers.
\<close>

definition FMOD_64BIT_ADD ::
  "32 word \<Rightarrow> 32 word \<Rightarrow> 32 word \<Rightarrow> 32 word \<Rightarrow> 32 word \<times> 32 word" where
  "FMOD_64BIT_ADD hi1 lo1 hi2 lo2 =
     (let c = (push_bit 32 (ucast hi1) + ucast lo1 :: 64 word)
            + (push_bit 32 (ucast hi2) + ucast lo2)
      in (ucast (drop_bit 32 c), ucast c))"

subsection \<open>Teardown and state validation\<close>

text \<open>\<open>cleanupResources\<close>: the new session and the engine calls made.\<close>

definition cleanupResources :: "session \<Rightarrow> session \<times> fmod_call list" where
  "cleanupResources s =
     (initial_session,
      (if sound s \<noteq> NULL then [Sound_Release (sound s)] else []) @
      (if fmsystem s \<noteq> NULL then [System_Close (fmsystem s), System_Release (fmsystem s)]
       else []))"

text \<open>\<open>validateState\<close>: its result (C truth value) and the session it leaves.\<close>

definition validateState :: "PlaybackState \<Rightarrow> session \<Rightarrow> bool \<times> session" where
  "validateState expected s =
     (if state_num (currentState s) < state_num expected then (False, s)
      else if state_num STATE_SYSTEM_CREATED \<le> state_num expected \<and> fmsystem s = NULL
        then (False, s\<lparr>currentState := STATE_ERROR\<rparr>)
      else if state_num STATE_SOUND_LOADED \<le> state_num expected \<and> sound s = NULL
        then (False, s\<lparr>currentState := STATE_ERROR\<rparr>)
      else if state_num STATE_PLAYING \<le> state_num expected \<and> channel s = NULL
        then (False, s\<lparr>currentState := STATE_ERROR\<rparr>)
      else (True, s))"

subsection \<open>startPlayback\<close>

text \<open>
  Every operation returns its C return value, the session it leaves and the engine calls
  it made. \<open>startPlayback\<close> returns \<open>None\<close> when the run meets the undefined cast of
  line 169. The body is cut at lines 88, 139 and 184 into four definitions.
\<close>

type_synonym 'a outcome = "'a \<times> session \<times> fmod_call list"

text \<open>The failure exit: \<open>cleanupResources(); return code;\<close>\<close>

definition abort :: "int \<Rightarrow> session \<Rightarrow> fmod_call list \<Rightarrow> int outcome option" where
  "abort code s t = Some (code, fst (cleanupResources s), t @ snd (cleanupResources s))"

text \<open>
  The test \<open>result != FMOD_OK && result != FMOD_ERR_INVALID_HANDLE && result !=
  FMOD_ERR_CHANNEL_STOLEN\<close> of the channel calls.
\<close>

definition genuine_error :: "FMOD_RESULT \<Rightarrow> bool" where
  "genuine_error r \<longleftrightarrow>
     r \<noteq> FMOD_OK \<and> r \<noteq> FMOD_ERR_INVALID_HANDLE \<and> r \<noteq> FMOD_ERR_CHANNEL_STOLEN"

text \<open>Lines 184 to 202: volume, unpause, update, \<open>return 0\<close>.\<close>

definition startPlayback_release ::
  "start_replies \<Rightarrow> session \<Rightarrow> fmod_call list \<Rightarrow> int outcome option" where
  "startPlayback_release e s t =
     (let t1 = t @ [Channel_SetVolume (channel s)] in
      if genuine_error (r_Channel_SetVolume e) then abort (- 1) s t1
      else let t2 = t1 @ [Channel_SetPaused (channel s)] in
        if genuine_error (r_Channel_SetPaused e) then abort (- 1) s t2
        else Some (0, s, t2 @ [System_Update (fmsystem s)]))"

text \<open>Lines 139 to 181: buffer size, output rate, clock, the two delays.\<close>

definition startPlayback_schedule ::
  "start_replies \<Rightarrow> session \<Rightarrow> fmod_call list \<Rightarrow> rat \<Rightarrow> 64 word \<Rightarrow> 64 word \<Rightarrow>
     int outcome option" where
  "startPlayback_schedule e s t inputRate startFrame endFrame =
     (let t1 = t @ [System_GetDSPBufferSize (fmsystem s)] in
      if fst (r_System_GetDSPBufferSize e) \<noteq> FMOD_OK then abort (- 1) s t1
      else
        let startDelayFrames = snd (r_System_GetDSPBufferSize e) * 2;
            t2 = t1 @ [System_GetSoftwareFormat (fmsystem s)] in
        if fst (r_System_GetSoftwareFormat e) \<noteq> FMOD_OK then abort (- 1) s t2
        else
          let outputRate = snd (r_System_GetSoftwareFormat e);
              hitime = fst (r_System_GetDSPClock e);
              lotime = snd (r_System_GetDSPClock e);
              startClock = FMOD_64BIT_ADD hitime lotime 0 startDelayFrames;
              t3 = t2 @ [System_GetDSPClock (fmsystem s),
                         Channel_SetDelay (channel s) (fst startClock) (snd startClock) True] in
          if r_Channel_SetDelay_start e \<noteq> FMOD_OK then abort (- 1) s t3
          else
            (case endDelayFrames_of startDelayFrames outputRate inputRate startFrame endFrame of
               None \<Rightarrow> None
             | Some endDelayFrames \<Rightarrow>
                 let stopClock = FMOD_64BIT_ADD hitime lotime 0 endDelayFrames;
                     t4 = t3 @ [Channel_SetDelay (channel s) (fst stopClock) (snd stopClock)
                                  False] in
                 if r_Channel_SetDelay_end e \<noteq> FMOD_OK then abort (- 1) s t4
                 else startPlayback_release e s t4))"

text \<open>
  Lines 88 to 137: record the start frame (the \<open>long long\<close> is cut to the 32 bits of the
  \<open>int\<close>), create and initialise the system, open the sound (its seek position is an
  \<open>unsigned int\<close>), read its rate, start the channel.
\<close>

definition startPlayback_acquire ::
  "start_replies \<Rightarrow> session \<Rightarrow> fmod_call list \<Rightarrow> string \<Rightarrow> 64 word \<Rightarrow> 64 word \<Rightarrow>
     int outcome option" where
  "startPlayback_acquire e s t filename startFrame endFrame =
     (let s1 = s\<lparr>lastStartFrame := ucast startFrame, fmsystem := snd (r_System_Create e)\<rparr>;
          t1 = t @ [System_Create] in
      if fst (r_System_Create e) \<noteq> FMOD_OK then abort (- 1) s1 t1
      else
        let s2 = s1\<lparr>currentState := STATE_SYSTEM_CREATED\<rparr>;
            t2 = t1 @ [System_Init (fmsystem s2)] in
        if r_System_Init e \<noteq> FMOD_OK then abort (- 1) s2 t2
        else
          let s3 = s2\<lparr>currentState := STATE_SYSTEM_INITIALIZED,
                      sound := snd (r_System_CreateSound e)\<rparr>;
              t3 = t2 @ [System_CreateSound (fmsystem s2) filename (ucast startFrame)] in
          if fst (r_System_CreateSound e) \<noteq> FMOD_OK then abort (- 3) s3 t3
          else
            let s4 = s3\<lparr>currentState := STATE_SOUND_LOADED\<rparr>;
                inputRate = snd (r_Sound_GetDefaults e);
                t4 = t3 @ [Sound_GetDefaults (sound s4)] in
            if fst (r_Sound_GetDefaults e) \<noteq> FMOD_OK then abort (- 3) s4 t4
            else
              let s5 = s4\<lparr>channel := snd (r_System_PlaySound e)\<rparr>;
                  t5 = t4 @ [System_PlaySound (fmsystem s4) (sound s4)] in
              if fst (r_System_PlaySound e) \<noteq> FMOD_OK then abort (- 1) s5 t5
              else startPlayback_schedule e (s5\<lparr>currentState := STATE_PLAYING\<rparr>) t5
                     inputRate startFrame endFrame)"

text \<open>Lines 72 to 86: tear down a live session, clamp the start frame, check the range.\<close>

definition startPlayback ::
  "start_replies \<Rightarrow> session \<Rightarrow> string \<Rightarrow> 64 word \<Rightarrow> 64 word \<Rightarrow> int outcome option" where
  "startPlayback e s filename startFrame endFrame =
     (let s0 = (if currentState s \<noteq> STATE_UNINITIALIZED then fst (cleanupResources s) else s);
          t0 = (if currentState s \<noteq> STATE_UNINITIALIZED then snd (cleanupResources s) else []);
          startFrame' = (if startFrame <s 0 then 0 else startFrame) in
      if endFrame \<le>s startFrame' then abort (- 1) s0 t0
      else startPlayback_acquire e s0 t0 filename startFrame' endFrame)"

subsection \<open>streamPosition, stopPlayback, playbackInProgress\<close>

text \<open>
  The reply to \<open>FMOD_Channel_GetPosition\<close> is its result code and the value of
  \<open>frames\<close> after the call (the variable starts at 0, and the engine may leave it).
  \<open>frames - lastStartFrame\<close> is an \<open>unsigned int\<close>; the \<open>long long\<close> returned is its
  value.
\<close>

definition streamPosition :: "FMOD_RESULT \<times> 32 word \<Rightarrow> session \<Rightarrow> int outcome" where
  "streamPosition r s =
     (let s' = snd (validateState STATE_PLAYING s) in
      if \<not> fst (validateState STATE_PLAYING s) then (- 1, s', [])
      else
        let t = [System_Update (fmsystem s'), Channel_GetPosition (channel s')];
            frames = snd r in
        if genuine_error (fst r) then (- 1, s', t)
        else (uint (frames - lastStartFrame s'), s', t))"

definition stopPlayback :: "FMOD_RESULT \<times> 32 word \<Rightarrow> session \<Rightarrow> int outcome" where
  "stopPlayback r s =
     (if currentState s = STATE_UNINITIALIZED then (0, s, [])
      else
        let p = (if state_num STATE_PLAYING \<le> state_num (currentState s) \<and> channel s \<noteq> NULL
                 then streamPosition r s else (0, s, []));
            toReturn = fst p; s1 = fst (snd p); t1 = snd (snd p) in
        (toReturn, fst (cleanupResources s1), t1 @ snd (cleanupResources s1)))"

text \<open>
  The reply to \<open>FMOD_Channel_IsPlaying\<close>: its result code and the value of the
  \<open>int playing\<close> after the call.
\<close>

definition playbackInProgress :: "FMOD_RESULT \<times> 32 word \<Rightarrow> session \<Rightarrow> int outcome" where
  "playbackInProgress r s =
     (if state_num (currentState s) < state_num STATE_PLAYING \<or> channel s = NULL
      then (0, s, [])
      else if genuine_error (fst r) then (0, s, [Channel_IsPlaying (channel s)])
      else (sint (snd r), s, [Channel_IsPlaying (channel s)]))"

subsection \<open>Sessions that the operations can produce\<close>

inductive reachable :: "session \<Rightarrow> bool" where
  reachable_initial: "reachable initial_session"
| reachable_start:
    "reachable s \<Longrightarrow> engine_contract e \<Longrightarrow>
     startPlayback e s filename startFrame endFrame = Some (rc, s', t) \<Longrightarrow> reachable s'"
| reachable_stop: "reachable s \<Longrightarrow> stopPlayback r s = (v, s', t) \<Longrightarrow> reachable s'"
| reachable_position: "reachable s \<Longrightarrow> streamPosition r s = (v, s', t) \<Longrightarrow> reachable s'"
| reachable_progress: "reachable s \<Longrightarrow> playbackInProgress r s = (v, s', t) \<Longrightarrow> reachable s'"

text \<open>The invariant of the data model on the three handles.\<close>

definition handles_inv :: "session \<Rightarrow> bool" where
  "handles_inv s \<longleftrightarrow>
     (sound s \<noteq> NULL \<longrightarrow> fmsystem s \<noteq> NULL) \<and> (channel s \<noteq> NULL \<longrightarrow> sound s \<noteq> NULL)"

text \<open>Replies of an engine on which every call succeeds, used for concrete runs.\<close>

definition good_replies :: start_replies where
  "good_replies =
     \<lparr>r_System_Create = (FMOD_OK, Address 1),
      r_System_Init = FMOD_OK,
      r_System_CreateSound = (FMOD_OK, Address 2),
      r_Sound_GetDefaults = (FMOD_OK, 44100),
      r_System_PlaySound = (FMOD_OK, Address 3),
      r_System_GetDSPBufferSize = (FMOD_OK, 1024),
      r_System_GetSoftwareFormat = (FMOD_OK, 48000),
      r_System_GetDSPClock = (0, 1000),
      r_Channel_SetDelay_start = FMOD_OK,
      r_Channel_SetDelay_end = FMOD_OK,
      r_Channel_SetVolume = FMOD_OK,
      r_Channel_SetPaused = FMOD_OK\<rparr>"

text \<open>The session that a first successful start leaves on that engine.\<close>

definition playing_session :: session where
  "playing_session =
     \<lparr>fmsystem = Address 1, sound = Address 2, channel = Address 3, lastStartFrame = 0,
      currentState = STATE_PLAYING\<rparr>"

text \<open>Replies of an engine that cannot create its system object, or cannot open the file.\<close>

definition create_fails :: start_replies where
  "create_fails = good_replies\<lparr>r_System_Create := (FMOD_ERR_OTHER 1, NULL)\<rparr>"

definition sound_fails :: start_replies where
  "sound_fails = good_replies\<lparr>r_System_CreateSound := (FMOD_ERR_OTHER 2, NULL)\<rparr>"

text \<open>The session left by a successful start at frame \<open>2^31\<close> on the engine above.\<close>

definition late_session :: session where
  "late_session =
     \<lparr>fmsystem = Address 1, sound = Address 2, channel = Address 3,
      lastStartFrame = 0x80000000, currentState = STATE_PLAYING\<rparr>"

subsection \<open>The failure classes of startPlayback\<close>

text \<open>
  Which step of \<open>startPlayback\<close> fails first, read off the replies: the range check
  (lines 82 to 86), a step on the stream (opening it, line 113, or reading its format,
  line 122), or a step on the engine (every other checked call).
\<close>

definition range_failure :: "64 word \<Rightarrow> 64 word \<Rightarrow> bool" where
  "range_failure startFrame endFrame \<longleftrightarrow>
     endFrame \<le>s (if startFrame <s 0 then 0 else startFrame)"

definition stream_failure :: "start_replies \<Rightarrow> bool" where
  "stream_failure e \<longleftrightarrow>
     fst (r_System_Create e) = FMOD_OK \<and> r_System_Init e = FMOD_OK \<and>
     (fst (r_System_CreateSound e) \<noteq> FMOD_OK \<or> fst (r_Sound_GetDefaults e) \<noteq> FMOD_OK)"

definition engine_failure :: "start_replies \<Rightarrow> bool" where
  "engine_failure e \<longleftrightarrow>
     fst (r_System_Create e) \<noteq> FMOD_OK \<or> r_System_Init e \<noteq> FMOD_OK \<or>
     (fst (r_System_CreateSound e) = FMOD_OK \<and> fst (r_Sound_GetDefaults e) = FMOD_OK \<and>
      (fst (r_System_PlaySound e) \<noteq> FMOD_OK \<or>
       fst (r_System_GetDSPBufferSize e) \<noteq> FMOD_OK \<or>
       fst (r_System_GetSoftwareFormat e) \<noteq> FMOD_OK \<or>
       r_Channel_SetDelay_start e \<noteq> FMOD_OK \<or>
       r_Channel_SetDelay_end e \<noteq> FMOD_OK \<or>
       genuine_error (r_Channel_SetVolume e) \<or>
       genuine_error (r_Channel_SetPaused e)))"

text \<open>The session left by a successful start at frame 100 on the engine above.\<close>

definition offset_session :: session where
  "offset_session =
     \<lparr>fmsystem = Address 1, sound = Address 2, channel = Address 3, lastStartFrame = 100,
      currentState = STATE_PLAYING\<rparr>"

section \<open>Auxiliary facts\<close>

subsection \<open>The exits of startPlayback\<close>

lemma cleanup_fst [simp]: "fst (cleanupResources s) = initial_session"
  by (simp add: cleanupResources_def)

lemma abort_eq [simp]:
  "abort c s t = Some (rc, s', t') \<longleftrightarrow>
     rc = c \<and> s' = initial_session \<and> t' = t @ snd (cleanupResources s)"
  by (auto simp: abort_def)

lemma release_cases:
  assumes "startPlayback_release e s t = Some (rc, s', t')"
  shows "(rc = - 1 \<and> s' = initial_session) \<or> (rc = 0 \<and> s' = s)"
  using assms by (auto simp: startPlayback_release_def Let_def split: if_splits)

lemma schedule_cases:
  assumes "startPlayback_schedule e s t r sf ef = Some (rc, s', t')"
  shows "(rc = - 1 \<and> s' = initial_session) \<or> (rc = 0 \<and> s' = s)"
  using assms
  by (auto simp: startPlayback_schedule_def Let_def split: if_splits option.splits
      dest: release_cases)

lemma acquire_cases:
  assumes "startPlayback_acquire e s t fn sf ef = Some (rc, s', t')"
  shows "((rc = - 1 \<or> rc = - 3) \<and> s' = initial_session) \<or>
         (rc = 0 \<and>
          s' = s\<lparr>fmsystem := snd (r_System_Create e), sound := snd (r_System_CreateSound e),
                 channel := snd (r_System_PlaySound e), lastStartFrame := ucast sf,
                 currentState := STATE_PLAYING\<rparr> \<and>
          fst (r_System_Create e) = FMOD_OK \<and> fst (r_System_CreateSound e) = FMOD_OK \<and>
          fst (r_System_PlaySound e) = FMOD_OK)"
  using assms
  by (auto simp: startPlayback_acquire_def Let_def split: if_splits dest!: schedule_cases)

lemma start_cases:
  assumes "startPlayback e s fn sf ef = Some (rc, s', t')"
  shows "((rc = - 1 \<or> rc = - 3) \<and> s' = initial_session) \<or>
         (rc = 0 \<and> currentState s' = STATE_PLAYING \<and>
          fmsystem s' = snd (r_System_Create e) \<and> sound s' = snd (r_System_CreateSound e) \<and>
          channel s' = snd (r_System_PlaySound e) \<and>
          lastStartFrame s' = ucast (if sf <s 0 then 0 else sf) \<and>
          fst (r_System_Create e) = FMOD_OK \<and> fst (r_System_CreateSound e) = FMOD_OK \<and>
          fst (r_System_PlaySound e) = FMOD_OK \<and> \<not> ef \<le>s (if sf <s 0 then 0 else sf))"
  using assms
  by (auto simp: startPlayback_def Let_def split: if_splits dest!: acquire_cases)

subsection \<open>Concrete runs\<close>

lemmas eval_double =
  round_double_def ilog2_def Let_def compute_bitlen round_half_even_def pow2_def

lemmas eval_start =
  startPlayback_def startPlayback_acquire_def startPlayback_schedule_def
  startPlayback_release_def abort_def cleanupResources_def genuine_error_def
  FMOD_64BIT_ADD_def word_sle_eq word_sless_alt

lemma round_double_44100: "round_double 44100 = Some 44100"
  by (simp add: eval_double)

lemma round_double_1: "round_double 1 = Some 1"
  by (simp add: eval_double)

lemma round_double_48000: "round_double 48000 = Some 48000"
  by (simp add: eval_double)

lemma endDelayFrames_second: "endDelayFrames_of sd 48000 44100 0 44100 = Some (sd + 48000)"
  by (simp add: endDelayFrames_of_def double_div_def double_mul_def double_to_int_def
      round_double_44100 round_double_1 round_double_48000)

lemma good_run:
  "startPlayback good_replies initial_session ''a.wav'' 0 44100 =
     Some (0, playing_session,
       [System_Create, System_Init (Address 1), System_CreateSound (Address 1) ''a.wav'' 0,
        Sound_GetDefaults (Address 2), System_PlaySound (Address 1) (Address 2), System_GetDSPBufferSize (Address 1),
        System_GetSoftwareFormat (Address 1), System_GetDSPClock (Address 1),
        Channel_SetDelay (Address 3) 0 3048 True, Channel_SetDelay (Address 3) 0 51048 False,
        Channel_SetVolume (Address 3), Channel_SetPaused (Address 3), System_Update (Address 1)])"
  by (simp add: eval_start good_replies_def initial_session_def playing_session_def
      endDelayFrames_second)

lemma good_contract: "engine_contract good_replies"
  by (simp add: engine_contract_def good_replies_def)

lemma late_run:
  "\<exists>t. startPlayback good_replies initial_session ''a.wav'' 0x80000000 0x8000AC44 =
     Some (0, late_session, t)"
  by (simp add: eval_start good_replies_def initial_session_def late_session_def
      endDelayFrames_of_def double_div_def double_mul_def double_to_int_def
      round_double_44100 round_double_1 round_double_48000)

subsection \<open>Status codes\<close>

lemma release_code:
  assumes "startPlayback_release e s t = Some (rc, s', t')"
  shows "rc = 0 \<or> rc = - 1"
    and "rc = 0 \<longleftrightarrow>
       \<not> genuine_error (r_Channel_SetVolume e) \<and> \<not> genuine_error (r_Channel_SetPaused e)"
  using assms by (auto simp: startPlayback_release_def Let_def split: if_splits)

lemma schedule_code:
  assumes "startPlayback_schedule e s t r sf ef = Some (rc, s', t')"
  shows "rc = 0 \<or> rc = - 1"
    and "rc = 0 \<longleftrightarrow> fst (r_System_GetDSPBufferSize e) = FMOD_OK \<and>
       fst (r_System_GetSoftwareFormat e) = FMOD_OK \<and> r_Channel_SetDelay_start e = FMOD_OK \<and>
       r_Channel_SetDelay_end e = FMOD_OK \<and>
       \<not> genuine_error (r_Channel_SetVolume e) \<and> \<not> genuine_error (r_Channel_SetPaused e)"
  using assms
  by (auto simp: startPlayback_schedule_def Let_def split: if_splits option.splits
      dest: release_code)

lemma acquire_code:
  assumes "startPlayback_acquire e s t fn sf ef = Some (rc, s', t')"
  shows "(stream_failure e \<longrightarrow> rc = - 3) \<and> (engine_failure e \<longrightarrow> rc = - 1) \<and>
         (\<not> stream_failure e \<and> \<not> engine_failure e \<longrightarrow> rc = 0)"
  using assms
  by (auto simp: startPlayback_acquire_def stream_failure_def engine_failure_def Let_def
      split: if_splits dest: schedule_code)

subsection \<open>The seek position and the recorded start frame\<close>

lemma uint_ucast_64_32: "uint (ucast (x :: 64 word) :: 32 word) = sint x mod 2 ^ 32"
proof -
  have "uint (ucast x :: 32 word) = take_bit 32 (uint x)"
    by (simp add: unsigned_ucast_eq)
  also have "\<dots> = take_bit 32 (take_bit 64 (sint x))"
    by (simp add: uint_sint)
  also have "\<dots> = take_bit 32 (sint x)"
    by (simp only: take_bit_take_bit)
  also have "\<dots> = sint x mod 2 ^ 32"
    by (simp only: take_bit_eq_mod)
  finally show ?thesis .
qed

lemma uint_diff_sint: "uint ((f :: 32 word) - l) = (uint f - sint l) mod 2 ^ 32"
proof -
  have "uint (f - l) = (uint f - uint l) mod 2 ^ 32"
    by (simp add: uint_word_ariths)
  also have "uint l = sint l mod 2 ^ 32"
    by (simp add: uint_sint take_bit_eq_mod)
  finally show ?thesis by (simp add: mod_diff_right_eq)
qed

lemma release_trace:
  assumes "startPlayback_release e s t = Some (rc, s', t')"
    and "System_CreateSound p f k \<in> set t'"
  shows "System_CreateSound p f k \<in> set t"
  using assms
  by (auto simp: startPlayback_release_def cleanupResources_def Let_def split: if_splits)

lemma schedule_trace:
  assumes "startPlayback_schedule e s t r sf ef = Some (rc, s', t')"
    and "System_CreateSound p f k \<in> set t'"
  shows "System_CreateSound p f k \<in> set t"
  using assms
  by (auto simp: startPlayback_schedule_def cleanupResources_def Let_def
      split: if_splits option.splits dest: release_trace)

lemma acquire_trace:
  assumes "startPlayback_acquire e s t fn sf ef = Some (rc, s', t')"
    and "System_CreateSound p f k \<in> set t'"
  shows "System_CreateSound p f k \<in> set t \<or> k = ucast sf"
  using assms
  by (auto simp: startPlayback_acquire_def cleanupResources_def Let_def
      split: if_splits dest: schedule_trace)

lemma start_trace:
  assumes "startPlayback e s fn sf ef = Some (rc, s', t')"
    and "System_CreateSound p f k \<in> set t'"
  shows "k = ucast (if sf <s 0 then 0 else sf)"
  using assms
  by (auto simp: startPlayback_def cleanupResources_def Let_def
      split: if_splits dest: acquire_trace)

lemma start_lastStartFrame:
  assumes "startPlayback e s fn sf ef = Some (rc, s', t')"
  shows "lastStartFrame s' = (if rc = 0 then ucast (if sf <s 0 then 0 else sf) else 0)"
  using start_cases [OF assms] by (auto simp: initial_session_def)

lemma streamPosition_live:
  assumes "currentState s = STATE_PLAYING" and "fmsystem s \<noteq> NULL" and "sound s \<noteq> NULL"
    and "channel s \<noteq> NULL"
  shows "streamPosition r s =
     (if genuine_error (fst r) then - 1 else uint (snd r - lastStartFrame s), s,
      [System_Update (fmsystem s), Channel_GetPosition (channel s)])"
  using assms by (simp add: streamPosition_def validateState_def Let_def)

lemma offset_run:
  "startPlayback good_replies initial_session ''a.wav'' 100 44200 =
     Some (0, offset_session,
       [System_Create, System_Init (Address 1), System_CreateSound (Address 1) ''a.wav'' 100,
        Sound_GetDefaults (Address 2), System_PlaySound (Address 1) (Address 2),
        System_GetDSPBufferSize (Address 1), System_GetSoftwareFormat (Address 1),
        System_GetDSPClock (Address 1), Channel_SetDelay (Address 3) 0 3048 True,
        Channel_SetDelay (Address 3) 0 51048 False, Channel_SetVolume (Address 3),
        Channel_SetPaused (Address 3), System_Update (Address 1)])"
  by (simp add: eval_start good_replies_def initial_session_def offset_session_def
      endDelayFrames_of_def double_div_def double_mul_def double_to_int_def
      round_double_44100 round_double_1 round_double_48000)

lemma streamPosition_handles:
  "fmsystem (fst (snd (streamPosition r s))) = fmsystem s \<and>
   sound (fst (snd (streamPosition r s))) = sound s"
  by (simp add: streamPosition_def validateState_def Let_def)

subsection \<open>Reachable sessions\<close>

lemma reachable_shape:
  assumes "reachable s"
  shows "s = initial_session \<or>
         (currentState s = STATE_PLAYING \<and> fmsystem s \<noteq> NULL \<and> sound s \<noteq> NULL \<and>
          channel s \<noteq> NULL)"
  using assms
proof (induction rule: reachable.induct)
  case reachable_initial
  then show ?case by simp
next
  case (reachable_start s e filename startFrame endFrame rc s' t)
  from start_cases [OF reachable_start.hyps(3)] reachable_start.hyps(2)
  show ?case by (auto simp: engine_contract_def)
next
  case (reachable_stop s r v s' t)
  then show ?case
    by (auto simp: stopPlayback_def Let_def initial_session_def split: if_splits)
next
  case (reachable_position s r v s' t)
  then show ?case
    by (auto simp: streamPosition_def validateState_def Let_def initial_session_def
        split: if_splits)
next
  case (reachable_progress s r v s' t)
  then show ?case
    by (auto simp: playbackInProgress_def split: if_splits)
qed

subsection \<open>Rounding to double precision\<close>

lemma floor_rat_numeral: "\<lfloor>(numeral a / numeral b :: rat)\<rfloor> = numeral a div numeral b"
  using floor_divide_of_int_eq [of "numeral a" "numeral b", where ?'a = rat] by simp

lemma ceiling_rat_numeral:
  "\<lceil>(numeral a / numeral b :: rat)\<rceil> = - (- numeral a div numeral b)"
  using floor_divide_of_int_eq [of "- numeral a" "numeral b", where ?'a = rat]
  by (simp add: ceiling_def)

lemma short_window_delay: "endDelayFrames_of 2048 48000 44100 0 3381 = Some 5727"
  by (simp add: endDelayFrames_of_def double_div_def double_mul_def double_to_int_def
      eval_double floor_rat_numeral ceiling_rat_numeral)

lemma pow2_powi: "pow2 e = 2 powi e"
  by (simp add: pow2_def power_int_def power_one_over inverse_eq_divide)

lemma pow2_pos: "0 < pow2 e"
  by (simp add: pow2_powi)

lemma pow2_add: "pow2 (a + b) = pow2 a * pow2 b"
  by (simp add: pow2_powi power_int_add)

lemma pow2_mono: "a \<le> b \<Longrightarrow> pow2 a \<le> pow2 b"
  by (simp add: pow2_powi power_int_increasing)

lemma pow2_less_cancel:
  assumes "pow2 a < pow2 b"
  shows "a < b"
proof (rule ccontr)
  assume "\<not> a < b"
  then have "pow2 b \<le> pow2 a" by (simp add: pow2_mono)
  with assms show False by simp
qed

lemma pow2_of_nat: "pow2 (int n) = 2 ^ n"
  by (simp add: pow2_def)

lemma pow2_minus_nat: "pow2 (- int n) = 1 / 2 ^ n"
  by (cases n) (simp_all add: pow2_def del: of_nat_Suc)

lemma round_half_even_error: "\<bar>of_int (round_half_even z) - z\<bar> \<le> 1 / 2"
proof -
  have "of_int \<lfloor>z\<rfloor> \<le> z" "z < of_int \<lfloor>z\<rfloor> + 1" by linarith+
  then show ?thesis
    by (auto simp: round_half_even_def Let_def)
qed

lemma ilog2_bounds:
  assumes "0 < x"
  shows "pow2 (ilog2 x) \<le> x" and "x < pow2 (ilog2 x + 1)"
proof -
  have both: "pow2 (ilog2 x) \<le> x \<and> x < pow2 (ilog2 x + 1)"
  proof (cases "1 \<le> x")
    case True
    define n where "n = \<lfloor>x\<rfloor>"
    have n: "1 \<le> n" "of_int n \<le> x" "x < of_int n + 1"
      using True by (simp_all add: n_def le_floor_iff) linarith
    define k where "k = nat (bitlen n - 1)"
    from n(1) have bl: "1 \<le> bitlen n"
      using bitlen_eq_zero_iff [of n] bitlen_nonneg [of n] by linarith
    then have kk: "bitlen n - 1 = int k" "bitlen n = int (Suc k)"
      by (simp_all add: k_def)
    have nk: "nat (bitlen n - 1) = k" "nat (bitlen n) = Suc k"
      using kk by simp_all
    from bitlen_bounds [of n] n(1) have b: "2 ^ k \<le> n" "n < 2 ^ Suc k"
      unfolding nk by simp_all
    have "(of_int (2 ^ k) :: rat) \<le> of_int n"
      using b(1) by (simp only: of_int_le_iff)
    then have lo: "(2 :: rat) ^ k \<le> of_int n" by simp
    have "n + 1 \<le> 2 ^ Suc k" using b(2) by simp
    then have "(of_int (n + 1) :: rat) \<le> of_int (2 ^ Suc k)"
      by (simp only: of_int_le_iff)
    then have hi: "of_int n + 1 \<le> (2 :: rat) ^ Suc k" by simp
    have il: "ilog2 x = int k" using True by (simp add: ilog2_def n_def [symmetric] kk)
    have p1: "pow2 (ilog2 x) = 2 ^ k" by (simp add: il pow2_of_nat)
    have "ilog2 x + 1 = int (Suc k)" by (simp add: il)
    then have p2: "pow2 (ilog2 x + 1) = 2 ^ Suc k"
      by (simp only: pow2_of_nat)
    show ?thesis unfolding p1 p2 using lo hi n(2,3) by linarith
  next
    case False
    define y where "y = 1 / x"
    from False assms have y: "1 < y" by (simp add: y_def)
    define m where "m = \<lceil>y\<rceil> - 1"
    have m: "1 \<le> m" "of_int m < y" "y \<le> of_int m + 1"
      using y by (simp_all add: m_def less_ceiling_iff) linarith+
    define k where "k = nat (bitlen m - 1)"
    from m(1) have bl: "1 \<le> bitlen m"
      using bitlen_eq_zero_iff [of m] bitlen_nonneg [of m] by linarith
    then have kk: "bitlen m - 1 = int k" "bitlen m = int (Suc k)"
      by (simp_all add: k_def)
    have nk: "nat (bitlen m - 1) = k" "nat (bitlen m) = Suc k"
      using kk by simp_all
    from bitlen_bounds [of m] m(1) have b: "2 ^ k \<le> m" "m < 2 ^ Suc k"
      unfolding nk by simp_all
    have "(of_int (2 ^ k) :: rat) \<le> of_int m"
      using b(1) by (simp only: of_int_le_iff)
    then have lo: "(2 :: rat) ^ k \<le> of_int m" by simp
    have "m + 1 \<le> 2 ^ Suc k" using b(2) by simp
    then have "(of_int (m + 1) :: rat) \<le> of_int (2 ^ Suc k)"
      by (simp only: of_int_le_iff)
    then have hi: "of_int m + 1 \<le> (2 :: rat) ^ Suc k" by simp
    have il: "ilog2 x = - int (Suc k)"
      using False by (simp add: ilog2_def y_def [symmetric] m_def [symmetric] kk)
    have p1: "pow2 (ilog2 x) = 1 / 2 ^ Suc k"
      unfolding il by (rule pow2_minus_nat)
    have "ilog2 x + 1 = - int k" by (simp add: il)
    then have p2: "pow2 (ilog2 x + 1) = 1 / 2 ^ k"
      by (simp only: pow2_minus_nat)
    have "y \<le> 2 ^ Suc k" using m(3) hi by linarith
    then have "1 / x \<le> 2 ^ Suc k" by (simp add: y_def)
    then have a: "1 / 2 ^ Suc k \<le> x"
      using assms by (simp add: field_simps)
    have "2 ^ k < y" using m(2) lo by linarith
    then have "2 ^ k < 1 / x" by (simp add: y_def)
    then have b': "x < 1 / 2 ^ k"
      using assms by (simp add: field_simps)
    show ?thesis unfolding p1 p2 using a b' by blast
  qed
  then show "pow2 (ilog2 x) \<le> x" and "x < pow2 (ilog2 x + 1)" by simp_all
qed

lemma round_double_error:
  assumes "pow2 (- 1022) \<le> x" and "round_double x = Some y"
  shows "\<bar>y - x\<bar> \<le> x / 2 ^ 53"
proof -
  have pos: "0 < x" using assms(1) pow2_pos [of "- 1022"] by linarith
  have "pow2 (- 1022) < pow2 (ilog2 x + 1)"
    using ilog2_bounds(2) [OF pos] assms(1) by linarith
  then have il: "- 1022 \<le> ilog2 x" using pow2_less_cancel by fastforce
  define e where "e = ilog2 x - 52"
  have emax: "max (ilog2 x - 52) (- 1074) = e" using il by (simp add: e_def)
  define z where "z = x / pow2 e"
  have yv: "y = of_int (round_half_even z) * pow2 e"
    using assms(2) pos emax
    by (auto simp: round_double_def Let_def z_def split: if_splits)
  have xz: "x = z * pow2 e" using pow2_pos [of e] by (simp add: z_def)
  have "y - x = (of_int (round_half_even z) - z) * pow2 e"
    by (simp add: yv xz [symmetric] algebra_simps)
  then have "\<bar>y - x\<bar> = \<bar>of_int (round_half_even z) - z\<bar> * pow2 e"
    using pow2_pos [of e] by (simp add: abs_mult)
  also have "\<dots> \<le> 1 / 2 * pow2 e"
    using round_half_even_error [of z] pow2_pos [of e] by (intro mult_right_mono) simp_all
  also have "pow2 e = pow2 (ilog2 x) * pow2 (- 52)"
    unfolding e_def using pow2_add [of "ilog2 x" "- 52"] by simp
  also have "pow2 (- 52) = 1 / 2 ^ 52"
    using pow2_minus_nat [of 52] by simp
  also have "1 / 2 * (pow2 (ilog2 x) * (1 / 2 ^ 52)) \<le> 1 / 2 * (x * (1 / 2 ^ 52))"
    using ilog2_bounds(1) [OF pos] by (intro mult_left_mono mult_right_mono) simp_all
  finally show ?thesis by simp
qed


lemma sint_window:
  fixes startFrame endFrame :: "64 word"
  assumes "0 \<le>s startFrame" and "startFrame <s endFrame"
  shows "sint (endFrame - startFrame) = sint endFrame - sint startFrame"
    and "1 \<le> sint endFrame - sint startFrame"
proof -
  have a: "0 \<le> sint startFrame" "sint startFrame < sint endFrame"
    using assms by (simp_all add: word_sle_eq word_sless_alt)
  have b: "sint endFrame < 2 ^ 63" using sint_lt [of endFrame] by simp
  from a b have "- (2 ^ 63) \<le> sint endFrame - sint startFrame"
    "sint endFrame - sint startFrame < 2 ^ 63" by linarith+
  then show "sint (endFrame - startFrame) = sint endFrame - sint startFrame"
    by (simp add: sint_word_diff signed_take_bit_int_eq_self)
  from a show "1 \<le> sint endFrame - sint startFrame" by linarith
qed

lemma round_double_bounds:
  assumes "pow2 (- 1022) \<le> x" and "round_double x = Some y"
  shows "(1 - 1 / 2 ^ 53) * x \<le> y" and "y \<le> (1 + 1 / 2 ^ 53) * x"
proof -
  from round_double_error [OF assms] have "\<bar>y - x\<bar> \<le> x / 2 ^ 53" .
  then have "x - x / 2 ^ 53 \<le> y" "y \<le> x + x / 2 ^ 53" by linarith+
  then show "(1 - 1 / 2 ^ 53) * x \<le> y" and "y \<le> (1 + 1 / 2 ^ 53) * x"
    by (simp_all add: algebra_simps)
qed

lemma normal_range: "pow2 (- 1022) \<le> 1 / 2 ^ 130"
proof -
  have "pow2 (- 1022) \<le> pow2 (- 130)" by (rule pow2_mono) simp
  also have "pow2 (- 130) = 1 / 2 ^ 130" using pow2_minus_nat [of 130] by simp
  finally show ?thesis .
qed

lemma round_half_even_upper: "of_int (round_half_even z) \<le> z + 1 / 2"
  using round_half_even_error [of z] by linarith

lemma round_double_total:
  assumes "0 \<le> x" and "x < 2 ^ 1000"
  shows "\<exists>y. round_double x = Some y \<and> 0 \<le> y \<and> y \<le> 2 * x + 1"
proof (cases "x = 0")
  case True
  then show ?thesis by (simp add: round_double_def)
next
  case False
  with assms(1) have pos: "0 < x" by simp
  define e where "e = max (ilog2 x - 52) (- 1074)"
  define z where "z = x / pow2 e"
  define v where "v = of_int (round_half_even z) * pow2 e"
  have xz: "z * pow2 e = x" using pow2_pos [of e] by (simp add: z_def)
  have z0: "0 \<le> z" using pos pow2_pos [of e] by (simp add: z_def)
  have pe: "pow2 e \<le> x + 1"
  proof (cases "ilog2 x - 52 \<le> - 1074")
    case True
    then have "e = - 1074" by (simp add: e_def)
    then have "pow2 e \<le> pow2 0" by (intro pow2_mono) simp
    also have "pow2 0 = 1" by (simp add: pow2_def)
    finally show ?thesis using pos by linarith
  next
    case False
    then have "e = ilog2 x - 52" by (simp add: e_def)
    then have "pow2 e \<le> pow2 (ilog2 x)" by (intro pow2_mono) simp
    with ilog2_bounds(1) [OF pos] show ?thesis by linarith
  qed
  have "0 \<le> round_half_even z"
    using z0 by (simp add: round_half_even_def Let_def)
  then have v0: "0 \<le> v" using pow2_pos [of e] by (simp add: v_def)
  have "v \<le> (z + 1 / 2) * pow2 e"
    unfolding v_def using round_half_even_upper [of z] pow2_pos [of e]
    by (intro mult_right_mono) simp_all
  also have "\<dots> = x + pow2 e / 2" using xz by (simp add: algebra_simps)
  also have "\<dots> \<le> 2 * x + 1" using pe pos by linarith
  finally have v1: "v \<le> 2 * x + 1" .
  moreover have "2 * x + 1 < 2 * 2 ^ 1000 + 1" using assms(2) by linarith
  moreover have "2 * 2 ^ 1000 + 1 \<le> (2 :: rat) ^ 1024" by simp
  ultimately have "v < 2 ^ 1024" by linarith
  then have "v < pow2 1024" using pow2_of_nat [of 1024] by simp
  then have "round_double x = Some v"
    using pos
    by (simp add: round_double_def Let_def e_def [symmetric] z_def [symmetric]
        v_def [symmetric])
  with v0 v1 show ?thesis by simp
qed

lemma window_product_bounds:
  assumes R1: "1 \<le> R" and W1: "1 \<le> W" and r: "0 < r" "r < 2 ^ 128"
    and w: "round_double W = Some w"
    and q: "round_double (w / r) = Some q"
    and p: "round_double (R * q) = Some p"
  shows "R * W / r - (R * W / r) / 2 ^ 51 \<le> p" and "p \<le> R * W / r + (R * W / r) / 2 ^ 51"
    and "w \<le> (1 + 1 / 2 ^ 53) * W" and "q \<le> (1 + 1 / 2 ^ 53) * (w / r)" and "0 < w" and "0 < q"
proof -
  define X where "X = R * W / r"
  define a where "a = (1 + 1 / 2 ^ 53 :: rat)"
  define b where "b = (1 - 1 / 2 ^ 53 :: rat)"
  have ab: "0 \<le> a" "0 \<le> b" "1 / 2 \<le> b" by (simp_all add: a_def b_def)
  have "pow2 (- 1022) \<le> W" using normal_range W1 by simp
  from round_double_bounds [OF this w] have wb: "b * W \<le> w" "w \<le> a * W"
    by (simp_all add: a_def b_def)
  have "1 / 2 * 1 \<le> b * W" using ab(3) W1 by (intro mult_mono) simp_all
  with wb(1) have w_half: "1 / 2 \<le> w" by simp
  have "1 / 2 ^ 129 = (1 / 2) / (2 ^ 128 :: rat)" by simp
  also have "\<dots> \<le> (1 / 2) / r"
    using r by (intro divide_left_mono) simp_all
  also have "\<dots> \<le> w / r"
    using r(1) w_half by (intro divide_right_mono) simp_all
  finally have x2: "1 / 2 ^ 129 \<le> w / r" .
  have n1: "(1 / 2 ^ 130 :: rat) \<le> 1 / 2 ^ 129" by simp
  have "pow2 (- 1022) \<le> w / r"
    by (rule order_trans [OF normal_range order_trans [OF n1 x2]])
  from round_double_bounds [OF this q] have qb: "b * (w / r) \<le> q" "q \<le> a * (w / r)"
    by (simp_all add: a_def b_def)
  have "1 / 2 * (1 / 2 ^ 129) \<le> b * (w / r)"
    using ab(3) x2 by (intro mult_mono) simp_all
  moreover have "(1 / 2 * (1 / 2 ^ 129) :: rat) = 1 / 2 ^ 130" by simp
  ultimately have "1 / 2 ^ 130 \<le> b * (w / r)" by (simp only:)
  then have q_lo: "1 / 2 ^ 130 \<le> q" using qb(1) by (rule order_trans)
  have q0: "0 \<le> q" by (rule order_trans [OF _ q_lo]) simp
  have "1 * q \<le> R * q" using R1 q0 by (rule mult_right_mono)
  then have "q \<le> R * q" by simp
  have "pow2 (- 1022) \<le> R * q"
    by (rule order_trans [OF normal_range order_trans [OF q_lo \<open>q \<le> R * q\<close>]])
  from round_double_bounds [OF this p] have pb: "b * (R * q) \<le> p" "p \<le> a * (R * q)"
    by (simp_all add: a_def b_def)
  have R0: "0 \<le> R" using R1 by simp
  have up: "p \<le> a ^ 3 * X"
  proof -
    have "w / r \<le> a * W / r"
      using wb(2) r(1) by (intro divide_right_mono) simp_all
    then have "a * (w / r) \<le> a * (a * W / r)"
      using ab(1) by (rule mult_left_mono)
    with qb(2) have "q \<le> a * (a * W / r)" by simp
    then have "R * q \<le> R * (a * (a * W / r))"
      using R0 by (rule mult_left_mono)
    then have "a * (R * q) \<le> a * (R * (a * (a * W / r)))"
      using ab(1) by (rule mult_left_mono)
    with pb(2) have "p \<le> a * (R * (a * (a * W / r)))" by simp
    also have "\<dots> = a ^ 3 * X" by (simp add: X_def power3_eq_cube)
    finally show ?thesis .
  qed
  have low: "b ^ 3 * X \<le> p"
  proof -
    have "b * W / r \<le> w / r"
      using wb(1) r(1) by (intro divide_right_mono) simp_all
    then have "b * (b * W / r) \<le> b * (w / r)"
      using ab(2) by (rule mult_left_mono)
    with qb(1) have "b * (b * W / r) \<le> q" by simp
    then have "R * (b * (b * W / r)) \<le> R * q"
      using R0 by (rule mult_left_mono)
    then have "b * (R * (b * (b * W / r))) \<le> b * (R * q)"
      using ab(2) by (rule mult_left_mono)
    with pb(1) have "b * (R * (b * (b * W / r))) \<le> p" by simp
    moreover have "b * (R * (b * (b * W / r))) = b ^ 3 * X"
      by (simp add: X_def power3_eq_cube)
    ultimately show ?thesis by simp
  qed
  have X0: "0 \<le> X" using R0 W1 r(1) by (simp add: X_def)
  have a3: "a ^ 3 \<le> 1 + 1 / 2 ^ 51" by (simp add: a_def power3_eq_cube)
  have b3: "1 - 1 / 2 ^ 51 \<le> b ^ 3" by (simp add: b_def power3_eq_cube)
  have "a ^ 3 * X \<le> (1 + 1 / 2 ^ 51) * X" using a3 X0 by (rule mult_right_mono)
  with up show "p \<le> R * W / r + (R * W / r) / 2 ^ 51"
    by (simp add: algebra_simps X_def)
  have "(1 - 1 / 2 ^ 51) * X \<le> b ^ 3 * X" using b3 X0 by (rule mult_right_mono)
  with low show "R * W / r - (R * W / r) / 2 ^ 51 \<le> p"
    by (simp add: algebra_simps X_def)
  from wb(2) show "w \<le> (1 + 1 / 2 ^ 53) * W" by (simp add: a_def)
  from qb(2) show "q \<le> (1 + 1 / 2 ^ 53) * (w / r)" by (simp add: a_def)
  from w_half show "0 < w" by simp
  from q_lo show "0 < q" by (rule less_le_trans [rotated]) simp
qed


lemma endDelayFrames_defined:
  assumes rates: "0 <s outputRate" "1 / 2 ^ 149 \<le> inputRate" "inputRate < 2 ^ 128"
    and frames: "0 \<le>s startFrame" "startFrame <s endFrame"
    and bound: "of_int (sint outputRate) * of_int (sint endFrame - sint startFrame) / inputRate
                  \<le> 2 ^ 31 - 1"
  shows "\<exists>d. endDelayFrames_of startDelayFrames outputRate inputRate startFrame endFrame = Some d"
proof -
  define R where "R = (of_int (sint outputRate) :: rat)"
  define W where "W = (of_int (sint endFrame - sint startFrame) :: rat)"
  have r0: "0 < inputRate" using rates(2) by (rule less_le_trans [rotated]) simp
  have "1 \<le> sint outputRate" using rates(1) by (simp add: word_sless_alt)
  then have R1: "1 \<le> R" by (simp add: R_def del: of_int_sint)
  have "sint outputRate < 2 ^ 31" using sint_lt [of outputRate] by simp
  then have "(of_int (sint outputRate) :: rat) < of_int (2 ^ 31)" by (simp only: of_int_less_iff)
  then have R2: "R < 2 ^ 31" unfolding R_def by simp
  from sint_window(2) [OF frames]
  have "(of_int 1 :: rat) \<le> of_int (sint endFrame - sint startFrame)"
    by (simp only: of_int_le_iff)
  then have W1: "1 \<le> W" unfolding W_def by (simp only: of_int_1)
  have "sint endFrame - sint startFrame < 2 ^ 63"
    using sint_lt [of endFrame] frames(1) by (simp add: word_sle_eq)
  then have "(of_int (sint endFrame - sint startFrame) :: rat) < of_int (2 ^ 63)"
    by (simp only: of_int_less_iff)
  then have W2: "W < 2 ^ 63" unfolding W_def by simp
  have "W < 2 ^ 1000" by (rule less_le_trans [OF W2]) simp
  with W1 round_double_total [of W]
  obtain w where w: "round_double W = Some w" and w0: "0 \<le> w" and w1: "w \<le> 2 * W + 1"
    by auto
  have w2: "w < 2 ^ 65" using w1 W2 by simp
  have "w / inputRate \<le> w / (1 / 2 ^ 149)"
    using rates(2) w0 by (intro divide_left_mono) simp_all
  also have "\<dots> = w * 2 ^ 149" by simp
  also have "\<dots> < 2 ^ 65 * 2 ^ 149" using w2 by (intro mult_strict_right_mono) simp_all
  finally have x2: "w / inputRate < 2 ^ 214" by simp
  have x20: "0 \<le> w / inputRate" using w0 r0 by simp
  have "w / inputRate < 2 ^ 1000" by (rule less_le_trans [OF x2]) simp
  with x20 round_double_total [of "w / inputRate"]
  obtain q where q: "round_double (w / inputRate) = Some q" and q0: "0 \<le> q"
    and q1: "q \<le> 2 * (w / inputRate) + 1"
    by auto
  have q2: "q < 2 ^ 216" using q1 x2 by simp
  have "R * q \<le> 2 ^ 31 * q" using R2 q0 by (intro mult_right_mono) simp_all
  also have "\<dots> < 2 ^ 31 * 2 ^ 216" using q2 by (intro mult_strict_left_mono) simp_all
  finally have x3: "R * q < 2 ^ 247" by simp
  have x30: "0 \<le> R * q" using R1 q0 by simp
  have "R * q < 2 ^ 1000" by (rule less_le_trans [OF x3]) simp
  with x30 round_double_total [of "R * q"]
  obtain p where p: "round_double (R * q) = Some p" and p0: "0 \<le> p"
    by auto
  from window_product_bounds(2) [OF R1 W1 r0 rates(3) w q p]
  have "p \<le> R * W / inputRate + (R * W / inputRate) / 2 ^ 51" .
  moreover have "R * W / inputRate \<le> 2 ^ 31 - 1" using bound by (simp add: R_def W_def del: of_int_sint)
  ultimately have "p < 2 ^ 31" by simp
  with p0 have "\<exists>c. double_to_int p = Some c" by (simp add: double_to_int_def)
  with w q p r0 show ?thesis
    by (auto simp: endDelayFrames_of_def double_div_def double_mul_def
        sint_window(1) [OF frames] W_def R_def simp del: of_int_sint)
qed

subsection \<open>When startPlayback returns\<close>

lemma release_returns: "startPlayback_release e s t \<noteq> None"
  by (simp add: startPlayback_release_def abort_def Let_def)

lemma schedule_returns:
  assumes "startPlayback_schedule e s t r sf ef = None"
  shows "endDelayFrames_of (snd (r_System_GetDSPBufferSize e) * 2)
           (snd (r_System_GetSoftwareFormat e)) r sf ef = None"
  using assms
  by (auto simp: startPlayback_schedule_def abort_def Let_def release_returns
      split: if_splits option.splits)

lemma acquire_returns:
  assumes "startPlayback_acquire e s t fn sf ef = None"
  shows "endDelayFrames_of (snd (r_System_GetDSPBufferSize e) * 2)
           (snd (r_System_GetSoftwareFormat e)) (snd (r_Sound_GetDefaults e)) sf ef = None"
  using assms
  by (auto simp: startPlayback_acquire_def abort_def Let_def split: if_splits
      dest: schedule_returns)

lemma startPlayback_returns:
  assumes "startPlayback e s fn sf ef = None"
  shows "endDelayFrames_of (snd (r_System_GetDSPBufferSize e) * 2)
           (snd (r_System_GetSoftwareFormat e)) (snd (r_Sound_GetDefaults e))
           (if sf <s 0 then 0 else sf) ef = None"
  using assms
  by (auto simp: startPlayback_def abort_def Let_def split: if_splits dest: acquire_returns)

section \<open>The claims\<close>

text \<open>
  C2. For every request with \<open>endFrame > startFrame \<ge> 0\<close>: if \<open>startPlayback\<close> returns 0,
  the session is in state Playing and the system, sound and channel pointers are all
  non-null. The engine is taken to keep its contract (a creating call that returns
  \<open>FMOD_OK\<close> has stored a non-null pointer).
\<close>

theorem startPlayback_success_playing:
  assumes "engine_contract e" and "0 \<le>s startFrame" and "startFrame <s endFrame"
    and "startPlayback e s filename startFrame endFrame = Some (0, s', t)"
  shows "currentState s' = STATE_PLAYING \<and> fmsystem s' \<noteq> NULL \<and> sound s' \<noteq> NULL \<and>
         channel s' \<noteq> NULL"
  using start_cases [OF assms(4)] assms(1) by (auto simp: engine_contract_def)

theorem startPlayback_success_playing_witness:
  "engine_contract good_replies \<and> (0 :: 64 word) \<le>s 0 \<and> (0 :: 64 word) <s 44100 \<and>
   (\<exists>t. startPlayback good_replies initial_session ''a.wav'' 0 44100 =
      Some (0, playing_session, t)) \<and>
   currentState playing_session = STATE_PLAYING \<and> fmsystem playing_session \<noteq> NULL \<and>
   sound playing_session \<noteq> NULL \<and> channel playing_session \<noteq> NULL"
proof -
  have h2: "(0 :: 64 word) \<le>s 0" by simp
  have h3: "(0 :: 64 word) <s 44100" by (simp add: word_sless_alt)
  from startPlayback_success_playing [OF good_contract h2 h3 good_run]
    good_contract h2 h3 good_run
  show ?thesis by blast
qed

text \<open>
  C3. For every request whose end frame is not above the clamped start frame,
  \<open>startPlayback\<close> returns the negative code \<open>-1\<close> after a full teardown: the session
  is Uninitialized, the three pointers are null and the start offset is 0; no engine
  object was created, and a sound or system that the session held has been released.
\<close>

theorem startPlayback_invalid_range:
  assumes "endFrame \<le>s (if startFrame <s 0 then 0 else startFrame)"
  shows "\<exists>s' t. startPlayback e s filename startFrame endFrame = Some (- 1, s', t) \<and>
           currentState s' = STATE_UNINITIALIZED \<and>
           fmsystem s' = NULL \<and> sound s' = NULL \<and> channel s' = NULL \<and>
           lastStartFrame s' = 0 \<and>
           System_Create \<notin> set t \<and>
           (sound s \<noteq> NULL \<longrightarrow> Sound_Release (sound s) \<in> set t) \<and>
           (fmsystem s \<noteq> NULL \<longrightarrow> System_Release (fmsystem s) \<in> set t)"
  using assms
  by (auto simp: startPlayback_def abort_def cleanupResources_def initial_session_def Let_def)

theorem startPlayback_invalid_range_witness:
  "(5 :: 64 word) \<le>s (if (5 :: 64 word) <s 0 then 0 else 5) \<and>
   (\<exists>s' t. startPlayback good_replies playing_session ''a.wav'' 5 5 = Some (- 1, s', t) \<and>
           currentState s' = STATE_UNINITIALIZED \<and>
           fmsystem s' = NULL \<and> sound s' = NULL \<and> channel s' = NULL \<and>
           lastStartFrame s' = 0 \<and>
           System_Create \<notin> set t \<and>
           (sound playing_session \<noteq> NULL \<longrightarrow> Sound_Release (sound playing_session) \<in> set t) \<and>
           (fmsystem playing_session \<noteq> NULL \<longrightarrow>
              System_Release (fmsystem playing_session) \<in> set t))"
proof -
  have h: "(5 :: 64 word) \<le>s (if (5 :: 64 word) <s 0 then 0 else 5)"
    by (simp add: word_sless_alt)
  from startPlayback_invalid_range [OF h, of good_replies playing_session "''a.wav''"] h
  show ?thesis by blast
qed

text \<open>
  C5 (as stated, refuted). The claim wants the codes of a range error, of an engine error
  and of a stream error to differ pairwise. A request with an empty range and a request
  on an engine that cannot create its system object both return \<open>-1\<close>.
\<close>

theorem status_codes_shared:
  "startPlayback good_replies initial_session ''a.wav'' 10 10 =
     Some (- 1, initial_session, []) \<and>
   startPlayback create_fails initial_session ''a.wav'' 0 10 =
     Some (- 1, initial_session, [System_Create])"
  by (simp add: eval_start create_fails_def good_replies_def initial_session_def)

text \<open>
  C5 (amended). Every run of \<open>startPlayback\<close> that returns gives \<open>-1\<close> for a range
  error, \<open>-1\<close> for an engine error, \<open>-3\<close> for a stream error and 0 otherwise: the
  code of a stream error differs from the one code that range errors and engine errors
  share.
\<close>

theorem status_codes:
  assumes "startPlayback e s filename startFrame endFrame = Some (rc, s', t)"
  shows "(range_failure startFrame endFrame \<longrightarrow> rc = - 1) \<and>
         (\<not> range_failure startFrame endFrame \<and> engine_failure e \<longrightarrow> rc = - 1) \<and>
         (\<not> range_failure startFrame endFrame \<and> stream_failure e \<longrightarrow> rc = - 3) \<and>
         (\<not> range_failure startFrame endFrame \<and> \<not> engine_failure e \<and> \<not> stream_failure e \<longrightarrow>
            rc = 0)"
  using assms
  by (auto simp: startPlayback_def range_failure_def Let_def split: if_splits
      dest: acquire_code)

theorem status_codes_witness:
  "startPlayback sound_fails initial_session ''a.wav'' 0 10 =
     Some (- 3, initial_session,
       [System_Create, System_Init (Address 1), System_CreateSound (Address 1) ''a.wav'' 0, System_Close (Address 1),
        System_Release (Address 1)]) \<and>
   \<not> range_failure 0 10 \<and> stream_failure sound_fails \<and> \<not> engine_failure sound_fails \<and>
   (- 3 :: int) \<noteq> - 1"
proof -
  have run: "startPlayback sound_fails initial_session ''a.wav'' 0 10 =
     Some (- 3, initial_session,
       [System_Create, System_Init (Address 1), System_CreateSound (Address 1) ''a.wav'' 0, System_Close (Address 1),
        System_Release (Address 1)])"
    by (simp add: eval_start sound_fails_def good_replies_def initial_session_def)
  have cls: "\<not> range_failure 0 10" "stream_failure sound_fails" "\<not> engine_failure sound_fails"
    by (simp_all add: range_failure_def stream_failure_def engine_failure_def sound_fails_def
        good_replies_def word_sle_eq word_sless_alt)
  from status_codes [OF run] run cls show ?thesis by simp
qed

text \<open>
  C7. For every call with a negative start frame the call is the call with start frame 0:
  it returns what that call returns, the offset it records is 0, every sound it opens is
  opened with seek position 0, the range check compares the end frame with 0, and after a
  success \<open>streamPosition\<close> reports the channel position itself.
\<close>

theorem startPlayback_negative_start:
  assumes "startFrame <s 0"
  shows "startPlayback e s filename startFrame endFrame = startPlayback e s filename 0 endFrame \<and>
         (\<forall>rc s' t. startPlayback e s filename startFrame endFrame = Some (rc, s', t) \<longrightarrow>
            lastStartFrame s' = 0 \<and>
            (\<forall>p f k. System_CreateSound p f k \<in> set t \<longrightarrow> k = 0) \<and>
            (endFrame \<le>s 0 \<longrightarrow> rc = - 1) \<and>
            (rc = 0 \<and> engine_contract e \<longrightarrow>
               (\<forall>frames. fst (streamPosition (FMOD_OK, frames) s') = uint frames)))"
proof (intro conjI allI impI)
  show eq: "startPlayback e s filename startFrame endFrame = startPlayback e s filename 0 endFrame"
    using assms by (simp add: startPlayback_def)
  fix rc s' t
  assume run: "startPlayback e s filename startFrame endFrame = Some (rc, s', t)"
  show "lastStartFrame s' = 0"
    using start_lastStartFrame [OF run] assms by simp
  show "k = 0" if "System_CreateSound p f k \<in> set t" for p f k
    using start_trace [OF run that] assms by simp
  show "rc = - 1" if "endFrame \<le>s 0"
    using run that assms by (simp add: startPlayback_def)
  show "fst (streamPosition (FMOD_OK, frames) s') = uint frames"
    if "rc = 0 \<and> engine_contract e" for frames
  proof -
    from start_cases [OF run] that
    have "currentState s' = STATE_PLAYING" "fmsystem s' \<noteq> NULL" "sound s' \<noteq> NULL"
      "channel s' \<noteq> NULL"
      by (auto simp: engine_contract_def)
    from streamPosition_live [OF this] \<open>lastStartFrame s' = 0\<close>
    show ?thesis by (simp add: genuine_error_def)
  qed
qed

theorem startPlayback_negative_start_witness:
  "(- 5 :: 64 word) <s 0 \<and>
   startPlayback good_replies initial_session ''a.wav'' (- 5) 44100 =
     startPlayback good_replies initial_session ''a.wav'' 0 44100 \<and>
   (\<exists>t. startPlayback good_replies initial_session ''a.wav'' (- 5) 44100 =
      Some (0, playing_session, t) \<and> (\<forall>p f k. System_CreateSound p f k \<in> set t \<longrightarrow> k = 0)) \<and>
   lastStartFrame playing_session = 0 \<and>
   fst (streamPosition (FMOD_OK, 7) playing_session) = 7"
proof -
  have h: "(- 5 :: 64 word) <s 0" by (simp add: word_sless_alt)
  note inst = startPlayback_negative_start [OF h, of good_replies initial_session "''a.wav''" 44100]
  from inst have eq: "startPlayback good_replies initial_session ''a.wav'' (- 5) 44100 =
     startPlayback good_replies initial_session ''a.wav'' 0 44100" by blast
  with good_run obtain t where run: "startPlayback good_replies initial_session ''a.wav'' (- 5) 44100 =
      Some (0, playing_session, t)" by simp
  from inst run good_contract have l0: "lastStartFrame playing_session = 0"
    and seek: "\<forall>p f k. System_CreateSound p f k \<in> set t \<longrightarrow> k = 0"
    and pos: "\<forall>frames. fst (streamPosition (FMOD_OK, frames) playing_session) = uint frames"
    by blast+
  from run seek have ex: "\<exists>t. startPlayback good_replies initial_session ''a.wav'' (- 5) 44100 =
      Some (0, playing_session, t) \<and> (\<forall>p f k. System_CreateSound p f k \<in> set t \<longrightarrow> k = 0)"
    by blast
  from pos have "fst (streamPosition (FMOD_OK, 7) playing_session) = uint (7 :: 32 word)" by blast
  then have p7: "fst (streamPosition (FMOD_OK, 7) playing_session) = 7" by simp
  from h eq ex l0 p7 show ?thesis by blast
qed

text \<open>
  C9. \<open>lastStartFrame\<close> is a 32-bit \<open>int\<close>: after a successful start with a start frame
  of \<open>2^31\<close> or more, the recorded offset is the start frame cut to 32 bits (its value
  modulo \<open>2^32\<close>, read as a signed number), which is not the requested start frame.
\<close>

theorem lastStartFrame_truncated:
  assumes "2 ^ 31 \<le> sint startFrame"
    and "startPlayback e s filename startFrame endFrame = Some (0, s', t)"
  shows "lastStartFrame s' = ucast startFrame \<and>
         uint (lastStartFrame s') = sint startFrame mod 2 ^ 32 \<and>
         sint (lastStartFrame s') \<noteq> sint startFrame"
proof -
  have nonneg: "\<not> startFrame <s 0"
    using assms(1) by (simp add: word_sless_alt)
  with start_lastStartFrame [OF assms(2)]
  have eq: "lastStartFrame s' = ucast startFrame" by simp
  have "sint (lastStartFrame s') < 2 ^ 31"
    using sint_lt [of "lastStartFrame s'"] by simp
  with assms(1) have ne: "sint (lastStartFrame s') \<noteq> sint startFrame" by linarith
  show ?thesis using eq ne by (simp add: uint_ucast_64_32)
qed

theorem lastStartFrame_truncated_witness:
  "(2 :: int) ^ 31 \<le> sint (0x80000000 :: 64 word) \<and>
   (\<exists>t. startPlayback good_replies initial_session ''a.wav'' 0x80000000 0x8000AC44 =
      Some (0, late_session, t)) \<and>
   lastStartFrame late_session = ucast (0x80000000 :: 64 word) \<and>
   uint (lastStartFrame late_session) = sint (0x80000000 :: 64 word) mod 2 ^ 32 \<and>
   sint (lastStartFrame late_session) = - (2 ^ 31) \<and>
   sint (lastStartFrame late_session) \<noteq> sint (0x80000000 :: 64 word)"
proof -
  have h: "(2 :: int) ^ 31 \<le> sint (0x80000000 :: 64 word)" by simp
  obtain t where run: "startPlayback good_replies initial_session ''a.wav'' 0x80000000 0x8000AC44 =
      Some (0, late_session, t)"
    using late_run by blast
  have v: "sint (lastStartFrame late_session) = - (2 ^ 31)"
    by (simp add: late_session_def)
  from lastStartFrame_truncated [OF h run] h run v show ?thesis by blast
qed

text \<open>
  C4 (as stated, refuted). The claim wants \<open>streamPosition\<close>, while Playing on a live
  channel, to return the channel position minus the recorded start frame. After a start at
  frame 100, a channel that reports position 50 makes it return \<open>4294967246\<close>, not
  \<open>50 - 100\<close>.
\<close>

theorem streamPosition_wraps:
  "startPlayback good_replies initial_session ''a.wav'' 100 44200 =
     Some (0, offset_session,
       [System_Create, System_Init (Address 1), System_CreateSound (Address 1) ''a.wav'' 100,
        Sound_GetDefaults (Address 2), System_PlaySound (Address 1) (Address 2),
        System_GetDSPBufferSize (Address 1), System_GetSoftwareFormat (Address 1),
        System_GetDSPClock (Address 1), Channel_SetDelay (Address 3) 0 3048 True,
        Channel_SetDelay (Address 3) 0 51048 False, Channel_SetVolume (Address 3),
        Channel_SetPaused (Address 3), System_Update (Address 1)]) \<and>
   fst (streamPosition (FMOD_OK, 50) offset_session) = 4294967246 \<and>
   fst (streamPosition (FMOD_OK, 50) offset_session) \<noteq> 50 - 100"
proof -
  have "fst (streamPosition (FMOD_OK, 50) offset_session) = 4294967246"
    by (simp add: streamPosition_def validateState_def offset_session_def genuine_error_def
        Let_def)
  with offset_run show ?thesis by simp
qed

text \<open>
  C4 (amended). For every session the operations can produce: if the state is not Playing,
  \<open>streamPosition\<close> returns \<open>-1\<close> and changes nothing; if it is Playing and the
  position query has no genuine error, it returns the channel position minus the recorded
  start frame reduced modulo \<open>2^32\<close>, which is the difference itself whenever the
  position is not below a non-negative start frame; and a negative result is always
  \<open>-1\<close>.
\<close>

theorem streamPosition_result:
  assumes "reachable s"
  shows "(currentState s \<noteq> STATE_PLAYING \<longrightarrow> streamPosition r s = (- 1, s, [])) \<and>
         (currentState s = STATE_PLAYING \<and> \<not> genuine_error (fst r) \<longrightarrow>
            fst (streamPosition r s) = (uint (snd r) - sint (lastStartFrame s)) mod 2 ^ 32 \<and>
            (0 \<le> sint (lastStartFrame s) \<and> sint (lastStartFrame s) \<le> uint (snd r) \<longrightarrow>
               fst (streamPosition r s) = uint (snd r) - sint (lastStartFrame s))) \<and>
         (fst (streamPosition r s) < 0 \<longrightarrow> fst (streamPosition r s) = - 1)"
proof -
  note shape = reachable_shape [OF assms]
  have idle: "streamPosition r s = (- 1, s, [])" if "currentState s \<noteq> STATE_PLAYING"
  proof -
    from shape that have "s = initial_session" by blast
    then show ?thesis
      by (simp add: streamPosition_def validateState_def initial_session_def)
  qed
  have live: "fst (streamPosition r s) = (uint (snd r) - sint (lastStartFrame s)) mod 2 ^ 32 \<and>
            (0 \<le> sint (lastStartFrame s) \<and> sint (lastStartFrame s) \<le> uint (snd r) \<longrightarrow>
               fst (streamPosition r s) = uint (snd r) - sint (lastStartFrame s))"
    if h: "currentState s = STATE_PLAYING \<and> \<not> genuine_error (fst r)"
  proof -
    let ?d = "uint (snd r) - sint (lastStartFrame s)"
    from shape h have "currentState s = STATE_PLAYING" "fmsystem s \<noteq> NULL" "sound s \<noteq> NULL"
      "channel s \<noteq> NULL"
      by (auto simp: initial_session_def)
    from streamPosition_live [OF this, of r] h
    have eq: "fst (streamPosition r s) = ?d mod 2 ^ 32"
      by (simp add: uint_diff_sint)
    have "?d mod 2 ^ 32 = ?d"
      if "0 \<le> sint (lastStartFrame s) \<and> sint (lastStartFrame s) \<le> uint (snd r)"
    proof -
      have "uint (snd r) < 2 ^ 32" using uint_lt2p [of "snd r"] by simp
      with that have "0 \<le> ?d" "?d < 2 ^ 32" by linarith+
      then show ?thesis by (rule mod_pos_pos_trivial)
    qed
    with eq show ?thesis by simp
  qed
  have neg: "fst (streamPosition r s) = - 1" if "fst (streamPosition r s) < 0"
    using that by (simp add: streamPosition_def Let_def split: if_splits)
  from idle live neg show ?thesis by blast
qed

theorem streamPosition_result_witness:
  "reachable playing_session \<and> reachable initial_session \<and>
   currentState initial_session \<noteq> STATE_PLAYING \<and>
   streamPosition (FMOD_OK, 7) initial_session = (- 1, initial_session, []) \<and>
   currentState playing_session = STATE_PLAYING \<and> \<not> genuine_error FMOD_OK \<and>
   fst (streamPosition (FMOD_OK, 7) playing_session) = 7"
proof -
  have ri: "reachable initial_session" by (rule reachable_initial)
  have rp: "reachable playing_session"
    by (rule reachable_start [OF reachable_initial good_contract good_run])
  have h: "currentState initial_session \<noteq> STATE_PLAYING"
    "currentState playing_session = STATE_PLAYING" "\<not> genuine_error FMOD_OK"
    "sint (lastStartFrame playing_session) = 0"
    by (simp_all add: initial_session_def playing_session_def genuine_error_def)
  from streamPosition_result [OF ri, of "(FMOD_OK, 7)"] h
  have a: "streamPosition (FMOD_OK, 7) initial_session = (- 1, initial_session, [])" by blast
  from streamPosition_result [OF rp, of "(FMOD_OK, 7)"] h
  have b: "fst (streamPosition (FMOD_OK, 7) playing_session) = 7" by simp
  from ri rp h a b show ?thesis by blast
qed

text \<open>
  C6 (as stated, refuted). The claim wants \<open>stopPlayback\<close> to return 0 whenever the
  position could not be determined. On a Playing session whose position query fails with a
  genuine engine error it returns \<open>-1\<close>.
\<close>

theorem stopPlayback_query_error:
  "startPlayback good_replies initial_session ''a.wav'' 0 44100 =
     Some (0, playing_session,
       [System_Create, System_Init (Address 1), System_CreateSound (Address 1) ''a.wav'' 0,
        Sound_GetDefaults (Address 2), System_PlaySound (Address 1) (Address 2),
        System_GetDSPBufferSize (Address 1), System_GetSoftwareFormat (Address 1),
        System_GetDSPClock (Address 1), Channel_SetDelay (Address 3) 0 3048 True,
        Channel_SetDelay (Address 3) 0 51048 False, Channel_SetVolume (Address 3),
        Channel_SetPaused (Address 3), System_Update (Address 1)]) \<and>
   fst (stopPlayback (FMOD_ERR_OTHER 1, 0) playing_session) = - 1"
proof -
  have "fst (stopPlayback (FMOD_ERR_OTHER 1, 0) playing_session) = - 1"
    by (simp add: stopPlayback_def streamPosition_def validateState_def playing_session_def
        genuine_error_def Let_def)
  with good_run show ?thesis by simp
qed

text \<open>
  C6 (amended). \<open>stopPlayback\<close> returns 0 and changes nothing when no session is active,
  so a second call in a row returns 0; whenever a session is active it tears it down (the
  session is reset, a held sound and system are released); from state Playing with a
  channel it returns what \<open>streamPosition\<close> returns at that moment: the captured
  position, or \<open>-1\<close> when the position query fails with a genuine error.
\<close>

theorem stopPlayback_result:
  "(currentState s = STATE_UNINITIALIZED \<longrightarrow> stopPlayback r s = (0, s, [])) \<and>
   fst (stopPlayback r' (fst (snd (stopPlayback r s)))) = 0 \<and>
   (currentState s \<noteq> STATE_UNINITIALIZED \<longrightarrow>
      fst (snd (stopPlayback r s)) = initial_session \<and>
      (sound s \<noteq> NULL \<longrightarrow> Sound_Release (sound s) \<in> set (snd (snd (stopPlayback r s)))) \<and>
      (fmsystem s \<noteq> NULL \<longrightarrow>
         System_Release (fmsystem s) \<in> set (snd (snd (stopPlayback r s))))) \<and>
   (state_num STATE_PLAYING \<le> state_num (currentState s) \<and> channel s \<noteq> NULL \<longrightarrow>
      fst (stopPlayback r s) = fst (streamPosition r s)) \<and>
   (state_num (currentState s) < state_num STATE_PLAYING \<or> channel s = NULL \<longrightarrow>
      fst (stopPlayback r s) = 0) \<and>
   (currentState s = STATE_PLAYING \<and> fmsystem s \<noteq> NULL \<and> sound s \<noteq> NULL \<and>
    channel s \<noteq> NULL \<longrightarrow>
      fst (stopPlayback r s) =
        (if genuine_error (fst r) then - 1 else uint (snd r - lastStartFrame s)))"
proof -
  have idle: "stopPlayback r s = (0, s, [])" if "currentState s = STATE_UNINITIALIZED"
    using that by (simp add: stopPlayback_def)
  have active: "fst (snd (stopPlayback r s)) = initial_session \<and>
      (sound s \<noteq> NULL \<longrightarrow> Sound_Release (sound s) \<in> set (snd (snd (stopPlayback r s)))) \<and>
      (fmsystem s \<noteq> NULL \<longrightarrow>
         System_Release (fmsystem s) \<in> set (snd (snd (stopPlayback r s))))"
    if "currentState s \<noteq> STATE_UNINITIALIZED"
    using that streamPosition_handles [of r s]
    by (simp add: stopPlayback_def Let_def cleanupResources_def)
  have again: "fst (stopPlayback r' (fst (snd (stopPlayback r s)))) = 0"
  proof (cases "currentState s = STATE_UNINITIALIZED")
    case True
    then show ?thesis by (simp add: idle) (simp add: stopPlayback_def)
  next
    case False
    then show ?thesis using active by (simp add: stopPlayback_def initial_session_def)
  qed
  have capture: "fst (stopPlayback r s) = fst (streamPosition r s)"
    if "state_num STATE_PLAYING \<le> state_num (currentState s) \<and> channel s \<noteq> NULL"
  proof -
    from that have "currentState s \<noteq> STATE_UNINITIALIZED" by auto
    with that show ?thesis by (simp add: stopPlayback_def Let_def)
  qed
  have absent: "fst (stopPlayback r s) = 0"
    if "state_num (currentState s) < state_num STATE_PLAYING \<or> channel s = NULL"
    using that by (auto simp: stopPlayback_def Let_def)
  have live: "fst (stopPlayback r s) =
        (if genuine_error (fst r) then - 1 else uint (snd r - lastStartFrame s))"
    if "currentState s = STATE_PLAYING \<and> fmsystem s \<noteq> NULL \<and> sound s \<noteq> NULL \<and>
        channel s \<noteq> NULL"
    using that capture streamPosition_live [of s r] by simp
  from idle active again capture absent live show ?thesis by blast
qed

theorem stopPlayback_result_witness:
  "currentState playing_session = STATE_PLAYING \<and> channel playing_session \<noteq> NULL \<and>
   fst (stopPlayback (FMOD_OK, 500) playing_session) = 500 \<and>
   fst (snd (stopPlayback (FMOD_OK, 500) playing_session)) = initial_session \<and>
   fst (stopPlayback (FMOD_OK, 0) initial_session) = 0 \<and>
   fst (stopPlayback (FMOD_OK, 0) (fst (snd (stopPlayback (FMOD_OK, 500) playing_session)))) = 0"
proof -
  have h: "currentState playing_session = STATE_PLAYING" "channel playing_session \<noteq> NULL"
    "fmsystem playing_session \<noteq> NULL" "sound playing_session \<noteq> NULL"
    "currentState playing_session \<noteq> STATE_UNINITIALIZED"
    "lastStartFrame playing_session = 0" "\<not> genuine_error FMOD_OK"
    "currentState initial_session = STATE_UNINITIALIZED"
    by (simp_all add: playing_session_def initial_session_def genuine_error_def)
  note inst = stopPlayback_result [of playing_session "(FMOD_OK, 500)" "(FMOD_OK, 0)"]
  from inst h have a1: "fst (stopPlayback (FMOD_OK, 500) playing_session) = 500"
    by simp
  from inst h have a2: "fst (snd (stopPlayback (FMOD_OK, 500) playing_session)) = initial_session"
    by blast
  from inst have a3:
    "fst (stopPlayback (FMOD_OK, 0) (fst (snd (stopPlayback (FMOD_OK, 500) playing_session)))) = 0"
    by blast
  from stopPlayback_result [of initial_session "(FMOD_OK, 0)" "(FMOD_OK, 0)"] h
  have b: "fst (stopPlayback (FMOD_OK, 0) initial_session) = 0" by simp
  from h a1 a2 a3 b show ?thesis by blast
qed

text \<open>
  C8. The invariant (the sound pointer is non-null only if the system pointer is, the channel
  pointer only if the sound pointer is) holds initially and is kept by teardown,
  \<open>stopPlayback\<close>, \<open>streamPosition\<close>, \<open>playbackInProgress\<close> and by every
  returning run of \<open>startPlayback\<close>, successful or not, on an engine that keeps its
  contract. Moreover \<open>validateState\<close> accepts a session for the channel operations
  only when all three pointers are non-null.
\<close>

theorem handles_inv_preserved:
  "handles_inv initial_session \<and>
   (handles_inv s \<longrightarrow>
      handles_inv (fst (cleanupResources s)) \<and>
      handles_inv (fst (snd (stopPlayback r s))) \<and>
      handles_inv (fst (snd (streamPosition r s))) \<and>
      handles_inv (fst (snd (playbackInProgress r s))) \<and>
      (engine_contract e \<and>
       startPlayback e s filename startFrame endFrame = Some (rc, s', t) \<longrightarrow>
         handles_inv s')) \<and>
   (fst (validateState STATE_PLAYING s) \<longrightarrow>
      fmsystem s \<noteq> NULL \<and> sound s \<noteq> NULL \<and> channel s \<noteq> NULL)"
proof -
  have valid: "fmsystem s \<noteq> NULL \<and> sound s \<noteq> NULL \<and> channel s \<noteq> NULL"
    if "fst (validateState STATE_PLAYING s)"
    using that by (auto simp: validateState_def split: if_splits)
  have init: "handles_inv initial_session"
    by (simp add: handles_inv_def initial_session_def)
  have validate: "handles_inv (snd (validateState x s))" if "handles_inv s" for x
    using that by (auto simp: validateState_def handles_inv_def)
  have pos: "handles_inv (fst (snd (streamPosition r s)))" if "handles_inv s"
    using validate [OF that] by (simp add: streamPosition_def Let_def)
  have stop: "handles_inv (fst (snd (stopPlayback r s)))" if "handles_inv s"
    using that init by (simp add: stopPlayback_def Let_def)
  have prog: "handles_inv (fst (snd (playbackInProgress r s)))" if "handles_inv s"
    using that by (simp add: playbackInProgress_def)
  have start: "handles_inv s'"
    if "engine_contract e" "startPlayback e s filename startFrame endFrame = Some (rc, s', t)"
    using start_cases [OF that(2)] that(1) init
    by (auto simp: handles_inv_def engine_contract_def)
  from init pos stop prog start valid show ?thesis by simp
qed

theorem handles_inv_preserved_witness:
  "handles_inv initial_session \<and> engine_contract good_replies \<and>
   (\<exists>t. startPlayback good_replies initial_session ''a.wav'' 0 44100 =
      Some (0, playing_session, t)) \<and>
   handles_inv playing_session \<and>
   handles_inv (fst (snd (streamPosition (FMOD_OK, 7) playing_session))) \<and>
   handles_inv (fst (snd (playbackInProgress (FMOD_OK, 1) playing_session))) \<and>
   handles_inv (fst (snd (stopPlayback (FMOD_OK, 7) playing_session))) \<and>
   handles_inv (fst (cleanupResources playing_session))"
proof -
  from handles_inv_preserved [of initial_session _ good_replies "''a.wav''" 0 44100 0 playing_session]
    good_contract good_run
  have i: "handles_inv initial_session" and p: "handles_inv playing_session" by blast+
  from handles_inv_preserved [of playing_session "(FMOD_OK, 7)"] p
  have a: "handles_inv (fst (snd (streamPosition (FMOD_OK, 7) playing_session)))"
    "handles_inv (fst (snd (stopPlayback (FMOD_OK, 7) playing_session)))"
    "handles_inv (fst (cleanupResources playing_session))" by blast+
  from handles_inv_preserved [of playing_session "(FMOD_OK, 1)"] p
  have b: "handles_inv (fst (snd (playbackInProgress (FMOD_OK, 1) playing_session)))" by blast
  from i p a b good_contract good_run show ?thesis by blast
qed

text \<open>
  C10. \<open>streamPosition\<close> subtracts in 32-bit unsigned arithmetic: in state Playing the
  result is \<open>-1\<close> or lies in \<open>[0, 2^32)\<close>; with the three pointers set and no genuine
  query error it is the position minus the recorded start frame modulo \<open>2^32\<close>, and when
  the position is below the start frame that is the difference plus \<open>2^32\<close>, a value above
  \<open>2^31\<close> and not the (negative) difference.
\<close>

theorem streamPosition_unsigned:
  assumes "currentState s = STATE_PLAYING"
  shows "(fst (streamPosition r s) = - 1 \<or>
          (0 \<le> fst (streamPosition r s) \<and> fst (streamPosition r s) < 2 ^ 32)) \<and>
         (fmsystem s \<noteq> NULL \<and> sound s \<noteq> NULL \<and> channel s \<noteq> NULL \<and> \<not> genuine_error (fst r) \<longrightarrow>
            fst (streamPosition r s) = (uint (snd r) - sint (lastStartFrame s)) mod 2 ^ 32 \<and>
            (uint (snd r) < sint (lastStartFrame s) \<longrightarrow>
               fst (streamPosition r s) = uint (snd r) - sint (lastStartFrame s) + 2 ^ 32 \<and>
               2 ^ 31 < fst (streamPosition r s) \<and>
               fst (streamPosition r s) \<noteq> uint (snd r) - sint (lastStartFrame s)))"
proof -
  have range: "fst (streamPosition r s) = - 1 \<or>
          (0 \<le> fst (streamPosition r s) \<and> fst (streamPosition r s) < 2 ^ 32)"
    using uint_lt2p [of "snd r - lastStartFrame (snd (validateState STATE_PLAYING s))"]
    by (simp add: streamPosition_def Let_def)
  have live: "fst (streamPosition r s) = (uint (snd r) - sint (lastStartFrame s)) mod 2 ^ 32 \<and>
            (uint (snd r) < sint (lastStartFrame s) \<longrightarrow>
               fst (streamPosition r s) = uint (snd r) - sint (lastStartFrame s) + 2 ^ 32 \<and>
               2 ^ 31 < fst (streamPosition r s) \<and>
               fst (streamPosition r s) \<noteq> uint (snd r) - sint (lastStartFrame s))"
    if h: "fmsystem s \<noteq> NULL \<and> sound s \<noteq> NULL \<and> channel s \<noteq> NULL \<and> \<not> genuine_error (fst r)"
  proof -
    let ?d = "uint (snd r) - sint (lastStartFrame s)"
    from streamPosition_live [OF assms, of r] h
    have eq: "fst (streamPosition r s) = ?d mod 2 ^ 32"
      by (simp add: uint_diff_sint)
    have wrap: "?d mod 2 ^ 32 = ?d + 2 ^ 32 \<and> 2 ^ 31 < ?d + 2 ^ 32" if neg: "uint (snd r) < sint (lastStartFrame s)"
    proof -
      have "0 \<le> uint (snd r)" by simp
      moreover have "sint (lastStartFrame s) < 2 ^ 31"
        using sint_lt [of "lastStartFrame s"] by simp
      ultimately have lo: "- (2 ^ 31) < ?d" by linarith
      have "(?d + 2 ^ 32) mod 2 ^ 32 = ?d + 2 ^ 32"
        using lo neg by (intro mod_pos_pos_trivial) simp_all
      then show ?thesis using lo by simp
    qed
    from eq wrap show ?thesis by simp
  qed
  from range live show ?thesis by blast
qed


theorem streamPosition_unsigned_witness:
  "currentState offset_session = STATE_PLAYING \<and>
   fmsystem offset_session \<noteq> NULL \<and> sound offset_session \<noteq> NULL \<and>
   channel offset_session \<noteq> NULL \<and> \<not> genuine_error FMOD_ERR_INVALID_HANDLE \<and>
   uint (0 :: 32 word) < sint (lastStartFrame offset_session) \<and>
   fst (streamPosition (FMOD_ERR_INVALID_HANDLE, 0) offset_session) = 4294967196"
proof -
  have st: "currentState offset_session = STATE_PLAYING"
    by (simp add: offset_session_def)
  have h: "fmsystem offset_session \<noteq> NULL" "sound offset_session \<noteq> NULL"
    "channel offset_session \<noteq> NULL" "\<not> genuine_error FMOD_ERR_INVALID_HANDLE"
    "uint (0 :: 32 word) < sint (lastStartFrame offset_session)"
    by (simp_all add: offset_session_def genuine_error_def)
  have l: "sint (lastStartFrame offset_session) = 100"
    by (simp add: offset_session_def)
  from streamPosition_unsigned [OF st, of "(FMOD_ERR_INVALID_HANDLE, 0)"] h
  have "fst (streamPosition (FMOD_ERR_INVALID_HANDLE, 0) offset_session) =
          uint (0 :: 32 word) - sint (lastStartFrame offset_session) + 2 ^ 32"
    by simp
  with l have "fst (streamPosition (FMOD_ERR_INVALID_HANDLE, 0) offset_session) = 4294967196"
    by simp
  with st h show ?thesis by blast
qed

text \<open>
  C1 (as stated, refuted). The claim wants the stop delay to be the start delay plus
  \<open>floor(outputRate * (endFrame - startFrame) / inputRate)\<close>. With input rate 44100,
  output rate 48000, buffer size 1024 (start delay 2048) and the window of frames 0 to
  3381, the double-precision product is just below 3680, so line 169 gives
  \<open>2048 + 3679 = 5727\<close> and the stop delay is set at clock \<open>1000 + 5727\<close>, while the
  formula gives \<open>2048 + 3680\<close>.
\<close>

theorem stop_delay_below_floor:
  "endDelayFrames_of 2048 48000 44100 0 3381 = Some 5727 \<and>
   2048 + \<lfloor>(48000 * (3381 - 0) / 44100 :: rat)\<rfloor> = 5728 \<and>
   startPlayback good_replies initial_session ''a.wav'' 0 3381 =
     Some (0, playing_session,
       [System_Create, System_Init (Address 1), System_CreateSound (Address 1) ''a.wav'' 0,
        Sound_GetDefaults (Address 2), System_PlaySound (Address 1) (Address 2),
        System_GetDSPBufferSize (Address 1), System_GetSoftwareFormat (Address 1),
        System_GetDSPClock (Address 1), Channel_SetDelay (Address 3) 0 3048 True,
        Channel_SetDelay (Address 3) 0 6727 False, Channel_SetVolume (Address 3),
        Channel_SetPaused (Address 3), System_Update (Address 1)])"
proof -
  have "2048 + \<lfloor>(48000 * (3381 - 0) / 44100 :: rat)\<rfloor> = 5728"
    by (simp add: floor_rat_numeral)
  moreover have "startPlayback good_replies initial_session ''a.wav'' 0 3381 =
     Some (0, playing_session,
       [System_Create, System_Init (Address 1), System_CreateSound (Address 1) ''a.wav'' 0,
        Sound_GetDefaults (Address 2), System_PlaySound (Address 1) (Address 2),
        System_GetDSPBufferSize (Address 1), System_GetSoftwareFormat (Address 1),
        System_GetDSPClock (Address 1), Channel_SetDelay (Address 3) 0 3048 True,
        Channel_SetDelay (Address 3) 0 6727 False, Channel_SetVolume (Address 3),
        Channel_SetPaused (Address 3), System_Update (Address 1)])"
    by (simp add: eval_start good_replies_def initial_session_def playing_session_def
        short_window_delay)
  ultimately show ?thesis using short_window_delay by simp
qed

text \<open>
  C1 (amended). Line 169 sets \<open>endDelayFrames\<close> to \<open>startDelayFrames\<close> plus the
  double-precision value of \<open>outputRate * ((endFrame - startFrame) / inputRate)\<close> cut to
  an \<open>int\<close>. For positive rates and \<open>0 \<le> startFrame < endFrame\<close>: whenever that cast
  is defined, the stop delay minus the start delay is within 1 of
  \<open>floor(outputRate * (endFrame - startFrame) / inputRate)\<close>; the cast is defined
  whenever that quotient is at most \<open>2^31 - 1\<close> (the input rate being at least the
  least positive float, \<open>2^-149\<close>); and for input rate 44100, output rate 48000 and the
  window from 0 to 44100 the difference is exactly 48000, whatever the start delay.
\<close>

theorem stop_delay_conversion:
  assumes rates: "0 <s outputRate" "0 < inputRate" "inputRate < 2 ^ 128"
    and frames: "0 \<le>s startFrame" "startFrame <s endFrame"
  shows "(\<forall>endDelayFrames.
            endDelayFrames_of startDelayFrames outputRate inputRate startFrame endFrame =
              Some endDelayFrames \<longrightarrow>
            \<bar>uint (endDelayFrames - startDelayFrames) -
              \<lfloor>of_int (sint outputRate) * of_int (sint endFrame - sint startFrame) /
                inputRate\<rfloor>\<bar> \<le> 1) \<and>
         (1 / 2 ^ 149 \<le> inputRate \<and>
          of_int (sint outputRate) * of_int (sint endFrame - sint startFrame) / inputRate
            \<le> 2 ^ 31 - 1 \<longrightarrow>
            (\<exists>endDelayFrames.
               endDelayFrames_of startDelayFrames outputRate inputRate startFrame endFrame =
                 Some endDelayFrames)) \<and>
         endDelayFrames_of margin 48000 44100 0 44100 = Some (margin + 48000)"
proof -
  define R where "R = (of_int (sint outputRate) :: rat)"
  define W where "W = (of_int (sint endFrame - sint startFrame) :: rat)"
  define X where "X = R * W / inputRate"
  have "1 \<le> sint outputRate" using rates(1) by (simp add: word_sless_alt)
  then have R1: "1 \<le> R" by (simp add: R_def del: of_int_sint)
  from sint_window(2) [OF frames]
  have "(of_int 1 :: rat) \<le> of_int (sint endFrame - sint startFrame)"
    by (simp only: of_int_le_iff)
  then have W1: "1 \<le> W" unfolding W_def by (simp only: of_int_1)
  have X0: "0 \<le> X" using R1 W1 rates(2) by (simp add: X_def)
  have near: "\<bar>uint (endDelayFrames - startDelayFrames) - \<lfloor>X\<rfloor>\<bar> \<le> 1"
    if run: "endDelayFrames_of startDelayFrames outputRate inputRate startFrame endFrame =
               Some endDelayFrames" for endDelayFrames
  proof -
    obtain w q p c where w: "round_double W = Some w"
      and q: "round_double (w / inputRate) = Some q"
      and p: "round_double (R * q) = Some p"
      and c: "double_to_int p = Some c"
      and v: "endDelayFrames = startDelayFrames + c"
      using run rates(2)
      by (auto simp: endDelayFrames_of_def double_div_def double_mul_def bind_eq_Some_conv
          sint_window(1) [OF frames] W_def R_def simp del: of_int_sint)
    from window_product_bounds(1,2) [OF R1 W1 rates(2,3) w q p]
    have low: "X - X / 2 ^ 51 \<le> p" and up: "p \<le> X + X / 2 ^ 51"
      by (simp_all add: X_def)
    from c have pr: "p < 2 ^ 31"
      and cv: "c = word_of_int (if 0 \<le> p then \<lfloor>p\<rfloor> else \<lceil>p\<rceil>)"
      by (auto simp: double_to_int_def split: if_splits)
    have half: "X / 2 \<le> X - X / 2 ^ 51" using X0 by simp
    with low pr have Xr: "X < 2 ^ 32" by simp
    then have "X / 2 ^ 51 < 2 ^ 32 / 2 ^ 51" by (simp add: divide_strict_right_mono)
    then have small: "X / 2 ^ 51 < 1" by simp
    have p0: "0 \<le> p" using low X0 half by linarith
    have f1: "\<lfloor>p\<rfloor> \<le> \<lfloor>X\<rfloor> + 1"
    proof -
      have "\<lfloor>p\<rfloor> \<le> \<lfloor>X + 1\<rfloor>" using up small by (intro floor_mono) linarith
      then show ?thesis by simp
    qed
    have f2: "\<lfloor>X\<rfloor> \<le> \<lfloor>p\<rfloor> + 1"
    proof -
      have "\<lfloor>X\<rfloor> \<le> \<lfloor>p + 1\<rfloor>" using low small by (intro floor_mono) linarith
      then show ?thesis by simp
    qed
    have fr: "0 \<le> \<lfloor>p\<rfloor>" "\<lfloor>p\<rfloor> < 2 ^ 32"
      using p0 pr by (simp_all add: floor_less_iff)
    have "endDelayFrames - startDelayFrames = word_of_int \<lfloor>p\<rfloor>"
      using v cv p0 by simp
    then have "uint (endDelayFrames - startDelayFrames) = \<lfloor>p\<rfloor> mod 2 ^ 32"
      by (simp add: uint_word_of_int)
    also have "\<dots> = \<lfloor>p\<rfloor>" using fr by simp
    finally have "uint (endDelayFrames - startDelayFrames) = \<lfloor>p\<rfloor>" .
    with f1 f2 show ?thesis by simp
  qed
  have defined: "\<exists>endDelayFrames.
      endDelayFrames_of startDelayFrames outputRate inputRate startFrame endFrame =
        Some endDelayFrames"
    if "1 / 2 ^ 149 \<le> inputRate \<and> X \<le> 2 ^ 31 - 1"
    using that endDelayFrames_defined [OF rates(1) _ rates(3) frames, of startDelayFrames]
    by (simp add: X_def R_def W_def del: of_int_sint)
  from near defined endDelayFrames_second [of margin] show ?thesis
    unfolding X_def R_def W_def by blast
qed

theorem stop_delay_conversion_witness:
  "(0 :: 32 word) <s 48000 \<and> (0 :: rat) < 44100 \<and> (44100 :: rat) < 2 ^ 128 \<and>
   (0 :: 64 word) \<le>s 0 \<and> (0 :: 64 word) <s 3381 \<and>
   endDelayFrames_of 2048 48000 44100 0 3381 = Some 5727 \<and>
   \<bar>uint (5727 - 2048 :: 32 word) -
     \<lfloor>of_int (sint (48000 :: 32 word)) * of_int (sint (3381 :: 64 word) - sint (0 :: 64 word)) /
       (44100 :: rat)\<rfloor>\<bar> \<le> 1 \<and>
   endDelayFrames_of 7 48000 44100 0 44100 = Some (7 + 48000)"
proof -
  have h1: "(0 :: 32 word) <s 48000" by (simp add: word_sless_alt)
  have h2: "(0 :: rat) < 44100" by simp
  have h3: "(44100 :: rat) < 2 ^ 128" by simp
  have h4: "(0 :: 64 word) \<le>s 0" by simp
  have h5: "(0 :: 64 word) <s 3381" by (simp add: word_sless_alt)
  from stop_delay_conversion [OF h1 h2 h3 h4 h5, of 2048 7] h1 h2 h3 h4 h5 short_window_delay
  show ?thesis by blast
qed

end
